theory Spec2Isabelle
  imports Main
begin

section \<open>Python strings\<close>

text \<open>
  A Python \<open>str\<close> is modelled as a \<open>string\<close>: a list of characters, each character a
  code point below 256. \<open>isspace\<close> is \<open>str.isspace\<close> on that range: the code points
  9 to 13, 28 to 32, 133 and 160.
\<close>

definition isspace :: "char \<Rightarrow> bool" where
  "isspace c = (of_char c \<in> {9, 10, 11, 12, 13, 28, 29, 30, 31, 32, 133, 160 :: nat})"

text \<open>
  \<open>str.split()\<close> without arguments: skip a run of whitespace, take the run of other
  characters that follows as a word, repeat; no empty word is produced.
\<close>

function split_py :: "string \<Rightarrow> string list" where
  "split_py s =
     (let rest = dropWhile isspace s
      in if rest = [] then []
         else takeWhile (\<lambda>c. \<not> isspace c) rest
              # split_py (dropWhile (\<lambda>c. \<not> isspace c) rest))"
  by pat_completeness auto
termination
proof (relation "measure length")
  show "wf (measure length)" by simp
next
  fix s rest :: string
  assume r: "rest = dropWhile isspace s" and ne: "rest \<noteq> []"
  from ne obtain c cs where cs: "rest = c # cs" by (cases rest) auto
  with r have "\<not> isspace c"
    by (metis hd_dropWhile list.sel(1) ne)
  then have "length (dropWhile (\<lambda>c. \<not> isspace c) rest) \<le> length cs"
    using cs by (simp add: length_dropWhile_le)
  also have "length cs < length rest" using cs by simp
  also have "length rest \<le> length s" using r by (simp add: length_dropWhile_le)
  finally show "(dropWhile (\<lambda>c. \<not> isspace c) rest, s) \<in> measure length" by simp
qed

declare split_py.simps [simp del]

text \<open>\<open>sep.join(ws)\<close>.\<close>

fun join :: "string \<Rightarrow> string list \<Rightarrow> string" where
  "join sep [] = []"
| "join sep [w] = w"
| "join sep (w # v # ws) = w @ sep @ join sep (v # ws)"

text \<open>\<open>s.strip()\<close>: whitespace removed at both ends.\<close>

definition strip :: "string \<Rightarrow> string" where
  "strip s = rev (dropWhile isspace (rev (dropWhile isspace s)))"

text \<open>A word, as \<open>split\<close> produces them: not empty and free of whitespace.\<close>

definition is_word :: "string \<Rightarrow> bool" where
  "is_word w = (w \<noteq> [] \<and> (\<forall>c \<in> set w. \<not> isspace c))"

text \<open>A slice \<open>xs[i:j]\<close> with \<open>0 \<le> i\<close>: never an error, clipped at the end of the list.\<close>

definition slice :: "'a list \<Rightarrow> nat \<Rightarrow> nat \<Rightarrow> 'a list" where
  "slice xs i j = take (j - i) (drop i xs)"

text \<open>The decimal text of a non-negative integer, as an f-string renders it.\<close>

function str_nat :: "nat \<Rightarrow> string" where
  "str_nat n =
     (if n < 10 then [''0123456789'' ! n]
      else str_nat (n div 10) @ [''0123456789'' ! (n mod 10)])"
  by pat_completeness auto
termination
  by (relation "measure id") auto

declare str_nat.simps [simp del]

datatype py_error = ValueError | IndexError

text \<open>\<open>xs[i]\<close> with \<open>0 \<le> i\<close>: IndexError past the end.\<close>

definition index :: "'a list \<Rightarrow> nat \<Rightarrow> py_error + 'a" where
  "index xs i = (if i < length xs then Inr (xs ! i) else Inl IndexError)"

section \<open>The chunking loop (main, lines 129 to 136)\<close>

text \<open>
  \<open>for i in range(0, len(words), chunker_limit)\<close>: the loop variable starts at 0 and grows by
  the limit while it is below the number of words. A step of 0 makes \<open>range\<close> raise
  ValueError before the first iteration.
\<close>

function chunk_loop :: "string list \<Rightarrow> nat \<Rightarrow> nat \<Rightarrow> nat \<times> string list \<Rightarrow> nat \<times> string list" where
  "chunk_loop words chunker_limit i (num_chunks, chunks) =
     (if 0 < chunker_limit \<and> i < length words
      then chunk_loop words chunker_limit (i + chunker_limit)
             (num_chunks + 1, chunks @ [join '' '' (slice words i (i + chunker_limit))])
      else (num_chunks, chunks))"
  by pat_completeness auto
termination
  by (relation "measure (\<lambda>(words, chunker_limit, i, acc). length words - i)") auto

declare chunk_loop.simps [simp del]

definition chunk_words :: "string list \<Rightarrow> nat \<Rightarrow> py_error + nat \<times> string list" where
  "chunk_words words chunker_limit =
     (if chunker_limit = 0 then Inl ValueError
      else Inr (chunk_loop words chunker_limit 0 (0, [])))"

section \<open>The configuration record (get_video_summarizer, lines 14 to 56)\<close>

record summarizer =
  model :: string
  description :: string
  instructions :: "string list"
  add_to_system_prompt :: string
  markdown :: bool
  add_datetime_to_instructions :: bool
  debug_mode :: bool

definition get_video_summarizer :: "string \<Rightarrow> bool \<Rightarrow> summarizer" where
  "get_video_summarizer model_name debug =
     \<lparr> model = model_name,
       description = ''You are a Senior NYT Reporter tasked with writing a summary of a youtube video.'',
       instructions =
         [''You will be provided with: '',
          ''  1. Youtube video link and information about the video'',
          ''  2. Pre-processed summaries from junior researchers.'',
          ''Carefully process the information and think about the contents.'',
          ''Then generate a final New York Times-worthy report in a structured format.'',
          ''Make your report engaging, informative, and well-structured.'',
          ''Break the report into sections and provide key takeaways at the end.'',
          ''Make sure the title is a markdown link to the video.'',
          ''Give relevant titles to sections and provide details/facts/processes in each section.'',
          ''REMEMBER: you are writing for the New York Times, so the quality of the report is important.''],
       add_to_system_prompt =
         ''\<newline><report_format>\<newline>## Video Title with Link\<newline>''
         @ ''{this is the markdown link to the video}\<newline>\<newline>''
         @ ''### Overview\<newline>''
         @ ''{give a brief introduction of the video and why the user should read this report}\<newline>''
         @ ''{make this section engaging and create a hook for the reader}\<newline>\<newline>''
         @ ''### Section 1\<newline>{break the report into sections}\<newline>''
         @ ''{provide details/facts/processes in this section}\<newline>\<newline>''
         @ ''... more sections as necessary...\<newline>\<newline>''
         @ ''### Takeaways\<newline>{provide key takeaways from the video}\<newline>\<newline>''
         @ ''Report generated on: {Month Date, Year (hh:mm AM/PM)}\<newline></report_format>\<newline>'',
       markdown = True,
       add_datetime_to_instructions = True,
       debug_mode = debug \<rparr>"

section \<open>The completion client\<close>

text \<open>
  \<open>client.invoke(input=prompt, model=llm_model)\<close> is a call to an external service. The
  service has a state of its own, which a call may read and change, so the client is a
  function from that state, the prompt and the model name to the outcome of the call and
  the next state. The outcome is \<open>Inr content\<close> when the call returns a response (the text
  of \<open>response.content\<close>), and \<open>Inl detail\<close> when an \<open>Exception\<close> is raised inside the
  \<open>try\<close> block, \<open>detail\<close> being the text of \<open>str(e)\<close>.
\<close>

type_synonym 's client = "'s \<Rightarrow> string \<Rightarrow> string \<Rightarrow> (string + string) \<times> 's"

text \<open>The three places of \<open>main\<close> that call the client: lines 150, 171 and 187.\<close>

datatype call_site = Chunk_Call nat | Aggregate_Call | Direct_Call

record request =
  site :: call_site
  prompt_sent :: string
  model_sent :: string
  outcome :: "string + string"

section \<open>Summarizing the chunks (main, lines 139 to 157)\<close>

text \<open>
  The body of the loop for chunk \<open>i\<close>: the text recorded for the chunk, the request that
  was made and the next state of the service.
\<close>

definition summarize_chunk ::
  "'s client \<Rightarrow> string \<Rightarrow> string \<Rightarrow> nat \<Rightarrow> string \<Rightarrow> 's \<Rightarrow> string \<times> request \<times> 's" where
  "summarize_chunk client llm_model video_data i chunk s =
     (let chunk_info = ''Video data: '' @ video_data @ ''\<newline>\<newline>'' @ chunk @ ''\<newline>\<newline>'';
          prompt = ''Summarize the following video captions:\<newline>'' @ chunk;
          (response, s') = client s prompt llm_model;
          chunk_summary =
            (case response of
               Inr content \<Rightarrow> strip content
             | Inl e \<Rightarrow> ''Error during API call: '' @ e)
      in (chunk_summary,
          \<lparr> site = Chunk_Call i, prompt_sent = prompt, model_sent = llm_model,
            outcome = response \<rparr>,
          s'))"

text \<open>\<open>for i in range(num_chunks)\<close>, reading \<open>chunks[i]\<close>.\<close>

function summarize_loop ::
  "'s client \<Rightarrow> string \<Rightarrow> string \<Rightarrow> string list \<Rightarrow> nat \<Rightarrow> nat
     \<Rightarrow> string list \<times> request list \<times> 's \<Rightarrow> py_error + string list \<times> request list \<times> 's" where
  "summarize_loop client llm_model video_data chunks num_chunks i (chunk_summaries, requests, s) =
     (if i < num_chunks
      then (case index chunks i of
              Inl err \<Rightarrow> Inl err
            | Inr chunk \<Rightarrow>
                (case summarize_chunk client llm_model video_data i chunk s of
                   (chunk_summary, request, s') \<Rightarrow>
                     summarize_loop client llm_model video_data chunks num_chunks (Suc i)
                       (chunk_summaries @ [chunk_summary], requests @ [request], s')))
      else Inr (chunk_summaries, requests, s))"
  by pat_completeness auto
termination
  by (relation "measure (\<lambda>(client, llm_model, video_data, chunks, num_chunks, i, acc). num_chunks - i)")
    auto

declare summarize_loop.simps [simp del]

section \<open>The final summary (main, lines 159 to 192)\<close>

text \<open>\<open>for i, chunk_summary in enumerate(chunk_summaries, start=1)\<close>, appending to \<open>video_info\<close>.\<close>

fun label_summaries :: "nat \<Rightarrow> string list \<Rightarrow> string \<Rightarrow> string" where
  "label_summaries i [] video_info = video_info"
| "label_summaries i (chunk_summary # rest) video_info =
     label_summaries (Suc i) rest
       (video_info @ ''Chunk '' @ str_nat i @ '':\<newline>\<newline>'' @ chunk_summary @ ''\<newline>\<newline>''
          @ ''---\<newline>\<newline>'')"

datatype shown = Fallback string | Summary string

record 's run =
  chunks_made :: "string list"
  num_chunks_made :: nat
  summaries_made :: "string list"
  requests_made :: "request list"
  result :: shown
  service :: 's

definition aggregate ::
  "'s client \<Rightarrow> string \<Rightarrow> string \<Rightarrow> string \<Rightarrow> string list \<Rightarrow> 's \<Rightarrow> string \<times> request \<times> 's" where
  "aggregate client llm_model url video_data chunk_summaries s =
     (let video_info = ''Video URL: '' @ url @ ''\<newline>\<newline>'';
          video_info = video_info @ ''Video Data: '' @ video_data @ ''\<newline>\<newline>'';
          video_info = video_info @ ''Summaries:\<newline>\<newline>'';
          video_info = label_summaries 1 chunk_summaries video_info;
          prompt = ''Summarize the following captions:\<newline>'' @ video_info;
          (response, s') = client s prompt llm_model;
          summary =
            (case response of
               Inr content \<Rightarrow> [] @ strip content
             | Inl e \<Rightarrow> ''Error during final summary generation: '' @ e)
      in (summary,
          \<lparr> site = Aggregate_Call, prompt_sent = prompt, model_sent = llm_model,
            outcome = response \<rparr>,
          s'))"

definition summarize_direct ::
  "'s client \<Rightarrow> string \<Rightarrow> string \<Rightarrow> string \<Rightarrow> string \<Rightarrow> 's \<Rightarrow> string \<times> request \<times> 's" where
  "summarize_direct client llm_model url video_data video_captions s =
     (let video_info = ''Video URL: '' @ url @ ''\<newline>\<newline>'';
          video_info = video_info @ ''Video Data: '' @ video_data @ ''\<newline>\<newline>'';
          video_info = video_info @ ''Captions: '' @ video_captions @ ''\<newline>\<newline>'';
          prompt = ''Summarize the following video captions:\<newline>'' @ video_captions;
          (response, s') = client s prompt llm_model;
          summary =
            (case response of
               Inr content \<Rightarrow> [] @ strip content
             | Inl e \<Rightarrow> ''Error during summary generation: '' @ e)
      in (summary,
          \<lparr> site = Direct_Call, prompt_sent = prompt, model_sent = llm_model,
            outcome = response \<rparr>,
          s'))"

section \<open>The run (main, lines 98 to 192)\<close>

text \<open>
  The part of \<open>main\<close> that runs once the session holds a video URL, from the point where
  the caption source has answered: \<open>video_data\<close> is the text of the metadata it returned,
  \<open>video_captions\<close> the captions, \<open>None\<close> when it returned none. \<open>summarize_captions\<close> is
  lines 122 to 192, with the local variables of \<open>main\<close> that are in scope there as arguments.
\<close>

definition could_not_parse :: string where
  "could_not_parse = ''Sorry, could not parse the video. Please try again or use a different video.''"

definition summarize_captions ::
  "summarizer \<Rightarrow> 's client \<Rightarrow> 's \<Rightarrow> string \<Rightarrow> nat \<Rightarrow> string \<Rightarrow> string \<Rightarrow> string option
     \<Rightarrow> py_error + 's run" where
  "summarize_captions video_summarizer client s llm_model chunker_limit url video_data video_captions =
     (case video_captions of
        None \<Rightarrow>
          Inr \<lparr> chunks_made = [], num_chunks_made = 0, summaries_made = [], requests_made = [],
                result = Fallback could_not_parse, service = s \<rparr>
      | Some captions \<Rightarrow>
          if captions = [] then
            Inr \<lparr> chunks_made = [], num_chunks_made = 0, summaries_made = [], requests_made = [],
                  result = Fallback could_not_parse, service = s \<rparr>
          else
            (case chunk_words (split_py captions) chunker_limit of
               Inl err \<Rightarrow> Inl err
             | Inr (num_chunks, chunks) \<Rightarrow>
                 if 1 < num_chunks then
                   (case summarize_loop client llm_model video_data chunks num_chunks 0 ([], [], s) of
                      Inl err \<Rightarrow> Inl err
                    | Inr (chunk_summaries, requests, s') \<Rightarrow>
                        (case aggregate client llm_model url video_data chunk_summaries s' of
                           (summary, request, s'') \<Rightarrow>
                             Inr \<lparr> chunks_made = chunks, num_chunks_made = num_chunks,
                                   summaries_made = chunk_summaries,
                                   requests_made = requests @ [request],
                                   result = Summary summary, service = s'' \<rparr>))
                 else
                   (case summarize_direct client llm_model url video_data captions s of
                      (summary, request, s') \<Rightarrow>
                        Inr \<lparr> chunks_made = chunks, num_chunks_made = num_chunks,
                              summaries_made = [], requests_made = [request],
                              result = Summary summary, service = s' \<rparr>)))"

definition main ::
  "'s client \<Rightarrow> 's \<Rightarrow> string \<Rightarrow> nat \<Rightarrow> string \<Rightarrow> string \<Rightarrow> string option \<Rightarrow> py_error + 's run" where
  "main client s llm_model chunker_limit url video_data video_captions =
     (let video_summarizer = get_video_summarizer llm_model True
      in summarize_captions video_summarizer client s llm_model chunker_limit url video_data
           video_captions)"

section \<open>What a run sends and records\<close>

text \<open>
  The texts that \<open>main\<close> builds, named for the statements below: the prompt of a chunk-level
  or direct request, the label block of one chunk summary, the prompt of the aggregate
  request, and the text each \<open>try\<close> block leaves behind for a given outcome of the call.
\<close>

abbreviation chunk_prompt :: "string \<Rightarrow> string" where
  "chunk_prompt chunk \<equiv> ''Summarize the following video captions:\<newline>'' @ chunk"

abbreviation chunk_text :: "string + string \<Rightarrow> string" where
  "chunk_text response \<equiv>
     (case response of Inr content \<Rightarrow> strip content | Inl e \<Rightarrow> ''Error during API call: '' @ e)"

abbreviation labelled :: "nat \<Rightarrow> string \<Rightarrow> string" where
  "labelled i chunk_summary \<equiv>
     ''Chunk '' @ str_nat i @ '':\<newline>\<newline>'' @ chunk_summary @ ''\<newline>\<newline>'' @ ''---\<newline>\<newline>''"

abbreviation summaries_info :: "string \<Rightarrow> string \<Rightarrow> string list \<Rightarrow> string" where
  "summaries_info url video_data chunk_summaries \<equiv>
     ''Video URL: '' @ url @ ''\<newline>\<newline>''
     @ ''Video Data: '' @ video_data @ ''\<newline>\<newline>''
     @ ''Summaries:\<newline>\<newline>''
     @ concat (map (\<lambda>k. labelled (Suc k) (chunk_summaries ! k)) [0..<length chunk_summaries])"

abbreviation aggregate_prompt :: "string \<Rightarrow> string \<Rightarrow> string list \<Rightarrow> string" where
  "aggregate_prompt url video_data chunk_summaries \<equiv>
     ''Summarize the following captions:\<newline>'' @ summaries_info url video_data chunk_summaries"

abbreviation final_text :: "string + string \<Rightarrow> string" where
  "final_text response \<equiv>
     (case response of
        Inr content \<Rightarrow> strip content
      | Inl e \<Rightarrow> ''Error during final summary generation: '' @ e)"

abbreviation direct_text :: "string + string \<Rightarrow> string" where
  "direct_text response \<equiv>
     (case response of
        Inr content \<Rightarrow> strip content
      | Inl e \<Rightarrow> ''Error during summary generation: '' @ e)"

text \<open>
  The completion calls behind a list of requests: the client applied once to the prompt and
  the model of each request, in the order of the list, each call starting in the state of the
  service that the call before it left. It yields the responses and the last state.
\<close>

fun answers :: "'s client \<Rightarrow> 's \<Rightarrow> request list \<Rightarrow> (string + string) list \<times> 's" where
  "answers client s [] = ([], s)"
| "answers client s (q # qs) =
     (case client s (prompt_sent q) (model_sent q) of
        (response, s') \<Rightarrow>
          (case answers client s' qs of
             (responses, s'') \<Rightarrow> (response # responses, s'')))"

text \<open>
  A client is deterministic when its answer depends on the prompt and the model only, not on
  the state of the service.
\<close>

definition deterministic :: "'s client \<Rightarrow> bool" where
  "deterministic client = (\<forall>s s' prompt llm. fst (client s prompt llm) = fst (client s' prompt llm))"

text \<open>What a caller can observe of a run: everything but the state of the service.\<close>

abbreviation observed ::
  "py_error + 's run \<Rightarrow> py_error + string list \<times> nat \<times> string list \<times> request list \<times> shown" where
  "observed \<equiv>
     map_sum id (\<lambda>r. (chunks_made r, num_chunks_made r, summaries_made r, requests_made r, result r))"

section \<open>Clients for the examples\<close>

text \<open>
  The state of both services counts the calls made so far. \<open>steady\<close> always answers, with a
  text that depends on the prompt and the model only. \<open>fails_on k\<close> raises on the call it
  receives in state \<open>k\<close> and answers every other call.
\<close>

definition steady :: "nat client" where
  "steady s prompt llm =
     (Inr ('' '' @ llm @ '' read '' @ str_nat (length prompt) @ '' characters.\<newline>''), Suc s)"

definition fails_on :: "nat \<Rightarrow> nat client" where
  "fails_on k s prompt llm =
     (if s = k then Inl ''rate limit exceeded''
      else Inr (''  Summary '' @ str_nat s @ ''.\<newline>''),
      Suc s)"

text \<open>The inputs of the examples.\<close>

abbreviation llama :: string where "llama \<equiv> ''llama3-8b-8192''"
abbreviation video_url :: string where "video_url \<equiv> ''https://youtu.be/zjkBMFhNj_g''"
abbreviation hamlet_data :: string where "hamlet_data \<equiv> ''{title: Hamlet}''"

section \<open>Splitting and joining\<close>

lemma isspace_blank: "isspace CHR '' ''"
  by (simp add: isspace_def)

lemma split_py_none: "dropWhile isspace s = [] \<Longrightarrow> split_py s = []"
  by (subst split_py.simps) (simp add: Let_def)

lemma split_py_some:
  "dropWhile isspace s \<noteq> [] \<Longrightarrow>
   split_py s = takeWhile (\<lambda>c. \<not> isspace c) (dropWhile isspace s)
                # split_py (dropWhile (\<lambda>c. \<not> isspace c) (dropWhile isspace s))"
  by (subst split_py.simps) (simp only: Let_def if_False)

lemma split_py_space: "isspace c \<Longrightarrow> split_py (c # s) = split_py s"
  by (subst split_py.simps, subst (2) split_py.simps) simp

lemma split_py_word_sep:
  assumes "is_word w" "isspace c"
  shows "split_py (w @ c # s) = w # split_py s"
proof -
  from assms obtain a as where w: "w = a # as" and a: "\<not> isspace a"
    by (cases w) (auto simp: is_word_def)
  have d: "dropWhile isspace (w @ c # s) = w @ c # s" using w a by simp
  have t: "takeWhile (\<lambda>c. \<not> isspace c) (w @ c # s) = w"
    using assms by (simp add: is_word_def takeWhile_append)
  have e: "dropWhile (\<lambda>c. \<not> isspace c) (w @ c # s) = c # s"
    using assms by (simp add: is_word_def dropWhile_append)
  have "dropWhile isspace (w @ c # s) \<noteq> []" using d by (metis Nil_is_append_conv list.distinct(1))
  from split_py_some [OF this] show ?thesis
    by (simp only: d t e split_py_space [OF assms(2)])
qed

lemma split_py_word:
  assumes "is_word w"
  shows "split_py w = [w]"
proof -
  from assms obtain a as where w: "w = a # as" and a: "\<not> isspace a"
    by (cases w) (auto simp: is_word_def)
  have d: "dropWhile isspace w = w" using w a by simp
  have t: "takeWhile (\<lambda>c. \<not> isspace c) w = w"
    using assms by (simp add: is_word_def)
  have e: "dropWhile (\<lambda>c. \<not> isspace c) w = []"
    using assms by (simp add: is_word_def)
  have ne: "w \<noteq> []" using w by simp
  have "dropWhile isspace w \<noteq> []" using ne d by metis
  from split_py_some [OF this] show ?thesis
    by (simp only: d t e split_py_none [of "[]", simplified])
qed

lemma split_py_join:
  "\<forall>w \<in> set ws. is_word w \<Longrightarrow> split_py (join '' '' ws) = ws"
proof (induction ws)
  case Nil
  then show ?case by (simp add: split_py_none)
next
  case (Cons w ws)
  show ?case
  proof (cases ws)
    case Nil
    with Cons.prems show ?thesis by (simp add: split_py_word)
  next
    case (Cons v vs)
    from Cons.prems have "is_word w" by simp
    then have "split_py (w @ CHR '' '' # join '' '' ws) = w # split_py (join '' '' ws)"
      by (rule split_py_word_sep) (rule isspace_blank)
    with Cons.IH Cons.prems Cons show ?thesis by simp
  qed
qed

lemma first_word:
  "r \<noteq> [] \<Longrightarrow> \<not> isspace (hd r) \<Longrightarrow> is_word (takeWhile (\<lambda>c. \<not> isspace c) r)"
  by (auto simp: is_word_def takeWhile_eq_Nil_iff dest: set_takeWhileD)

lemma split_py_words: "w \<in> set (split_py s) \<Longrightarrow> is_word w"
proof (induction s rule: split_py.induct)
  case (1 s)
  define r where "r = dropWhile isspace s"
  show ?case
  proof (cases "r = []")
    case True
    with "1.prems" show ?thesis by (simp add: split_py_none r_def)
  next
    case False
    then have hd: "\<not> isspace (hd r)" unfolding r_def by (rule hd_dropWhile)
    have "split_py s = takeWhile (\<lambda>c. \<not> isspace c) r # split_py (dropWhile (\<lambda>c. \<not> isspace c) r)"
      using False unfolding r_def by (rule split_py_some)
    with "1.prems"
    consider "w = takeWhile (\<lambda>c. \<not> isspace c) r"
      | "w \<in> set (split_py (dropWhile (\<lambda>c. \<not> isspace c) r))"
      by auto
    then show ?thesis
    proof cases
      case 1
      with first_word [OF False hd] show ?thesis by simp
    next
      case 2
      with "1.IH" [OF r_def False] show ?thesis by simp
    qed
  qed
qed

section \<open>The chunks of a transcript\<close>

lemma div_plus_self: "0 < L \<Longrightarrow> (a + L) div L = Suc (a div (L::nat))"
  using div_add_self2 [of L a] by simp

lemma chunk_count_step:
  assumes "0 < L" "i < (n::nat)"
  shows "(n - i + (L - 1)) div L = Suc ((n - (i + L) + (L - 1)) div L)"
proof (cases "i + L \<le> n")
  case True
  have "n - i + (L - 1) = (n - (i + L) + (L - 1)) + L" using True assms by arith
  then have "(n - i + (L - 1)) div L = ((n - (i + L) + (L - 1)) + L) div L"
    by (rule arg_cong)
  also have "\<dots> = Suc ((n - (i + L) + (L - 1)) div L)"
    using assms(1) by (rule div_plus_self)
  finally show ?thesis .
next
  case False
  have "n - i + (L - 1) = (n - i - 1) + L" using False assms by arith
  then have "(n - i + (L - 1)) div L = ((n - i - 1) + L) div L"
    by (rule arg_cong)
  also have "\<dots> = Suc ((n - i - 1) div L)"
    using assms(1) by (rule div_plus_self)
  also have "(n - i - 1) div L = 0"
    using False assms by (intro div_less) arith
  also have "0 = (n - (i + L) + (L - 1)) div L"
    using False assms by (intro div_less [symmetric]) arith
  finally show ?thesis .
qed

lemma chunk_loop_eq:
  assumes "0 < L"
  shows "chunk_loop words L i (n, cs) =
     (n + (length words - i + (L - 1)) div L,
      cs @ map (\<lambda>k. join '' '' (take L (drop (i + k * L) words)))
             [0..<(length words - i + (L - 1)) div L])"
  using assms
proof (induction words L i "(n, cs)" arbitrary: n cs rule: chunk_loop.induct)
  case (1 words L i n cs)
  show ?case
  proof (cases "i < length words")
    case True
    let ?m = "(length words - (i + L) + (L - 1)) div L"
    have m: "(length words - i + (L - 1)) div L = Suc ?m"
      using chunk_count_step [OF "1.prems" True] .
    have "chunk_loop words L i (n, cs) =
            chunk_loop words L (i + L) (n + 1, cs @ [join '' '' (slice words i (i + L))])"
      using True "1.prems" by (subst chunk_loop.simps) simp
    also have "\<dots> = (n + 1 + ?m,
        (cs @ [join '' '' (slice words i (i + L))])
          @ map (\<lambda>k. join '' '' (take L (drop (i + L + k * L) words))) [0..<?m])"
      using "1.hyps" [OF _ "1.prems"] True "1.prems" by simp
    also have "\<dots> = (n + Suc ?m,
        cs @ map (\<lambda>k. join '' '' (take L (drop (i + k * L) words))) [0..<Suc ?m])"
      by (subst map_upt_Suc) (simp add: slice_def add.assoc)
    finally show ?thesis by (simp only: m)
  next
    case False
    then have "(length words - i + (L - 1)) div L = 0" using "1.prems" by simp
    moreover have "chunk_loop words L i (n, cs) = (n, cs)"
      using False by (subst chunk_loop.simps) simp
    ultimately show ?thesis by simp
  qed
qed

lemma ceil_div:
  assumes "0 < (L::nat)"
  shows "(n + (L - 1)) div L = (if n mod L = 0 then n div L else Suc (n div L))"
proof -
  define q r where "q = n div L" and "r = n mod L"
  have n: "n = q * L + r" and r: "r < L" using assms by (simp_all add: q_def r_def)
  have "(n + (L - 1)) div L = (q * L + (r + (L - 1))) div L"
    unfolding n by (simp add: add.assoc)
  also have "\<dots> = q + (r + (L - 1)) div L"
    using assms by (simp only: div_mult_self3 [of L q "r + (L - 1)"])
  finally have e: "(n + (L - 1)) div L = q + (r + (L - 1)) div L" .
  show ?thesis
  proof (cases "r = 0")
    case True
    then have "(r + (L - 1)) div L = 0" using assms by simp
    with e True show ?thesis by (simp add: q_def r_def)
  next
    case False
    then have "r + (L - 1) = (r - 1) + L" using assms by arith
    then have "(r + (L - 1)) div L = ((r - 1) + L) div L" by (rule arg_cong)
    also have "\<dots> = Suc ((r - 1) div L)" using assms by (rule div_plus_self)
    also have "(r - 1) div L = 0" using r by (intro div_less) arith
    finally have "(r + (L - 1)) div L = Suc 0" .
    with e False show ?thesis by (simp add: q_def r_def)
  qed
qed

lemma chunk_words_eq:
  assumes "0 < L"
  shows "chunk_words T L =
     Inr ((length T + (L - 1)) div L,
          map (\<lambda>k. join '' '' (take L (drop (k * L) T))) [0..<(length T + (L - 1)) div L])"
  using assms chunk_loop_eq [OF assms, of T 0 0 "[]"] by (simp add: chunk_words_def)

lemma split_py_piece:
  assumes "\<forall>w \<in> set T. is_word w"
  shows "split_py (join '' '' (take L (drop i T))) = take L (drop i T)"
proof (rule split_py_join)
  show "\<forall>w \<in> set (take L (drop i T)). is_word w"
    using assms by (meson in_set_dropD in_set_takeD)
qed

lemma concat_pieces:
  "concat (map (\<lambda>k. take L (drop (k * L) T)) [0..<m]) = take (m * L) T"
proof (induction m)
  case 0
  show ?case by simp
next
  case (Suc m)
  have "take (m * L) T @ take L (drop (m * L) T) = take (m * L + L) T"
    by (simp add: take_add)
  with Suc show ?case by (simp add: add.commute)
qed

lemma ceil_bounds:
  assumes "0 < (L::nat)"
  shows "n \<le> ((n + (L - 1)) div L) * L" and "((n + (L - 1)) div L) * L < n + L"
proof -
  have n: "n = (n div L) * L + n mod L" by simp
  have r: "n mod L < L" using assms by simp
  show "n \<le> ((n + (L - 1)) div L) * L"
  proof (cases "n mod L = 0")
    case True
    then show ?thesis using n ceil_div [OF assms, of n] by simp
  next
    case False
    have "n \<le> (n div L) * L + L" using n r by arith
    with False show ?thesis using ceil_div [OF assms, of n] by simp
  qed
  show "((n + (L - 1)) div L) * L < n + L"
  proof (cases "n mod L = 0")
    case True
    then show ?thesis using n assms ceil_div [OF assms, of n] by simp
  next
    case False
    have "(n div L) * L + L < n + L" using n False by arith
    with False show ?thesis using ceil_div [OF assms, of n] by simp
  qed
qed

lemma full_piece:
  assumes "0 < (L::nat)" and "Suc k < (n + (L - 1)) div L"
  shows "k * L + L \<le> n"
proof -
  from assms(2) have "Suc (Suc k) * L \<le> ((n + (L - 1)) div L) * L"
    by (intro mult_le_mono1) simp
  also have "\<dots> < n + L" by (rule ceil_bounds(2) [OF assms(1)])
  finally show ?thesis by simp
qed

lemma last_piece:
  assumes "0 < (L::nat)" and "0 < n"
  shows "min L (n - ((n + (L - 1)) div L - 1) * L) = (if n mod L = 0 then L else n mod L)"
proof (cases "n mod L = 0")
  case True
  define m where "m = n div L"
  have c: "(n + (L - 1)) div L = m" using True ceil_div [OF assms(1), of n] by (simp add: m_def)
  have n: "n = m * L" using True by (auto simp: m_def)
  with assms have "0 < m" by (cases m) auto
  then obtain j where j: "m = Suc j" by (cases m) auto
  have "n - (m - 1) * L = L" unfolding n j by simp
  with True show ?thesis unfolding c by simp
next
  case False
  have c: "(n + (L - 1)) div L - 1 = n div L" using False ceil_div [OF assms(1), of n] by simp
  have "n - (n div L) * L = n mod L" by (simp add: minus_div_mult_eq_mod)
  moreover have "n mod L < L" using assms by simp
  ultimately show ?thesis using False unfolding c by simp
qed

section \<open>The requests of a run\<close>

lemma summarize_chunk_eq:
  "summarize_chunk client llm_model video_data i chunk s =
     (chunk_text (fst (client s (chunk_prompt chunk) llm_model)),
      \<lparr> site = Chunk_Call i, prompt_sent = chunk_prompt chunk, model_sent = llm_model,
        outcome = fst (client s (chunk_prompt chunk) llm_model) \<rparr>,
      snd (client s (chunk_prompt chunk) llm_model))"
  by (simp add: summarize_chunk_def Let_def split: prod.splits)

lemma summarize_loop_stop:
  "\<not> i < n \<Longrightarrow> summarize_loop client llm vd chunks n i acc = Inr acc"
  by (cases acc) (simp add: summarize_loop.simps)

lemma summarize_loop_step:
  assumes "i < n" "i < length chunks"
  shows "summarize_loop client llm vd chunks n i (sums, reqs, s) =
     summarize_loop client llm vd chunks n (Suc i)
       (sums @ [chunk_text (fst (client s (chunk_prompt (chunks ! i)) llm))],
        reqs @ [\<lparr> site = Chunk_Call i, prompt_sent = chunk_prompt (chunks ! i), model_sent = llm,
                  outcome = fst (client s (chunk_prompt (chunks ! i)) llm) \<rparr>],
        snd (client s (chunk_prompt (chunks ! i)) llm))"
  using assms
  by (subst summarize_loop.simps) (simp add: index_def summarize_chunk_eq)

lemma summarize_loop_eq:
  assumes "n \<le> length chunks"
  shows "\<exists>new s'.
     summarize_loop client llm vd chunks n i (sums, reqs, s)
       = Inr (sums @ map (\<lambda>r. chunk_text (outcome r)) new, reqs @ new, s')
     \<and> map site new = map Chunk_Call [i..<n]
     \<and> map prompt_sent new = map (\<lambda>k. chunk_prompt (chunks ! k)) [i..<n]
     \<and> map model_sent new = map (\<lambda>k. llm) [i..<n]
     \<and> list_all (\<lambda>r. \<exists>t. outcome r = fst (client t (prompt_sent r) (model_sent r))) new"
  using assms
proof (induction "n - i" arbitrary: i sums reqs s)
  case 0
  then have "\<not> i < n" by simp
  then have "summarize_loop client llm vd chunks n i (sums, reqs, s) = Inr (sums, reqs, s)"
    by (rule summarize_loop_stop)
  moreover have "[i..<n] = []" using \<open>\<not> i < n\<close> by simp
  ultimately show ?case by (intro exI [of _ "[]"] exI [of _ s]) simp
next
  case (Suc d)
  then have lt: "i < n" and len: "i < length chunks" by simp_all
  let ?o = "fst (client s (chunk_prompt (chunks ! i)) llm)"
  let ?r = "\<lparr> site = Chunk_Call i, prompt_sent = chunk_prompt (chunks ! i), model_sent = llm,
              outcome = ?o \<rparr>"
  let ?s = "snd (client s (chunk_prompt (chunks ! i)) llm)"
  from Suc.hyps(2) have d: "d = n - Suc i" by simp
  from Suc.hyps(1) [OF d Suc.prems, of "sums @ [chunk_text ?o]" "reqs @ [?r]" ?s]
  obtain new s' where
    run: "summarize_loop client llm vd chunks n (Suc i) (sums @ [chunk_text ?o], reqs @ [?r], ?s)
            = Inr ((sums @ [chunk_text ?o]) @ map (\<lambda>r. chunk_text (outcome r)) new,
                   (reqs @ [?r]) @ new, s')"
    and sites: "map site new = map Chunk_Call [Suc i..<n]"
    and prompts: "map prompt_sent new = map (\<lambda>k. chunk_prompt (chunks ! k)) [Suc i..<n]"
    and models: "map model_sent new = map (\<lambda>k. llm) [Suc i..<n]"
    and answers: "list_all (\<lambda>r. \<exists>t. outcome r = fst (client t (prompt_sent r) (model_sent r))) new"
    by blast
  have upt: "[i..<n] = i # [Suc i..<n]" using lt by (rule upt_conv_Cons)
  have "\<exists>t. outcome ?r = fst (client t (prompt_sent ?r) (model_sent ?r))"
    by (intro exI [of _ s]) simp
  with answers have answers': "list_all (\<lambda>r. \<exists>t. outcome r = fst (client t (prompt_sent r) (model_sent r))) (?r # new)"
    by simp
  show ?case
    apply (intro exI [of _ "?r # new"] exI [of _ s'] conjI)
    subgoal using summarize_loop_step [OF lt len, of client llm vd sums reqs s] run by simp
    subgoal using sites by (simp add: upt)
    subgoal using prompts by (simp add: upt)
    subgoal using models by (simp add: upt)
    subgoal by (rule answers')
    done
qed

lemma label_summaries_eq:
  "label_summaries i sums info =
     info @ concat (map (\<lambda>k. labelled (i + k) (sums ! k)) [0..<length sums])"
proof (induction sums arbitrary: i info)
  case Nil
  show ?case by simp
next
  case (Cons t sums)
  have "map (\<lambda>k. labelled (i + k) ((t # sums) ! k)) [0..<length (t # sums)]
          = labelled i t # map (\<lambda>k. labelled (Suc i + k) (sums ! k)) [0..<length sums]"
    by (simp add: map_upt_Suc del: upt_Suc)
  then show ?case by (simp add: Cons.IH del: upt_Suc)
qed

lemma aggregate_eq:
  "aggregate client llm url vd sums s =
     (final_text (fst (client s (aggregate_prompt url vd sums) llm)),
      \<lparr> site = Aggregate_Call, prompt_sent = aggregate_prompt url vd sums, model_sent = llm,
        outcome = fst (client s (aggregate_prompt url vd sums) llm) \<rparr>,
      snd (client s (aggregate_prompt url vd sums) llm))"
  by (simp add: aggregate_def Let_def label_summaries_eq split: prod.splits sum.splits)

lemma summarize_direct_eq:
  "summarize_direct client llm url vd captions s =
     (direct_text (fst (client s (chunk_prompt captions) llm)),
      \<lparr> site = Direct_Call, prompt_sent = chunk_prompt captions, model_sent = llm,
        outcome = fst (client s (chunk_prompt captions) llm) \<rparr>,
      snd (client s (chunk_prompt captions) llm))"
  by (simp add: summarize_direct_def Let_def split: prod.splits sum.splits)

lemma chunk_words_total:
  assumes "0 < L"
  shows "\<exists>n cs. chunk_words T L = Inr (n, cs) \<and> n = length cs"
  using chunk_words_eq [OF assms, of T] by simp

lemma main_absent:
  assumes "video_captions = None \<or> video_captions = Some []"
  shows "main client s llm L url vd video_captions =
     Inr \<lparr> chunks_made = [], num_chunks_made = 0, summaries_made = [], requests_made = [],
           result = Fallback could_not_parse, service = s \<rparr>"
  using assms by (auto simp: main_def summarize_captions_def)

lemma main_direct:
  assumes "captions \<noteq> []" and "chunk_words (split_py captions) L = Inr (n, cs)" and "\<not> 1 < n"
  shows "main client s llm L url vd (Some captions) =
     Inr \<lparr> chunks_made = cs, num_chunks_made = n, summaries_made = [],
           requests_made =
             [\<lparr> site = Direct_Call, prompt_sent = chunk_prompt captions, model_sent = llm,
                outcome = fst (client s (chunk_prompt captions) llm) \<rparr>],
           result = Summary (direct_text (fst (client s (chunk_prompt captions) llm))),
           service = snd (client s (chunk_prompt captions) llm) \<rparr>"
  using assms by (simp add: main_def summarize_captions_def summarize_direct_eq)

lemma main_multi:
  assumes "captions \<noteq> []" and "chunk_words (split_py captions) L = Inr (n, cs)"
    and "1 < n" and "n = length cs"
  shows "\<exists>new agg s'.
     main client s llm L url vd (Some captions) =
       Inr \<lparr> chunks_made = cs, num_chunks_made = n,
             summaries_made = map (\<lambda>r. chunk_text (outcome r)) new,
             requests_made = new @ [agg],
             result = Summary (final_text (outcome agg)), service = s' \<rparr>
     \<and> map site new = map Chunk_Call [0..<n]
     \<and> map prompt_sent new = map chunk_prompt cs
     \<and> map model_sent new = map (\<lambda>k. llm) [0..<n]
     \<and> list_all (\<lambda>r. \<exists>t. outcome r = fst (client t (prompt_sent r) (model_sent r))) new
     \<and> site agg = Aggregate_Call
     \<and> prompt_sent agg = aggregate_prompt url vd (map (\<lambda>r. chunk_text (outcome r)) new)
     \<and> model_sent agg = llm
     \<and> (\<exists>t. outcome agg = fst (client t (prompt_sent agg) (model_sent agg)))"
proof -
  from assms(4) have le: "n \<le> length cs" by simp
  from summarize_loop_eq [OF le, of client llm vd 0 "[]" "[]" s]
  obtain new s1 where
    run: "summarize_loop client llm vd cs n 0 ([], [], s)
            = Inr (map (\<lambda>r. chunk_text (outcome r)) new, new, s1)"
    and sites: "map site new = map Chunk_Call [0..<n]"
    and prompts: "map prompt_sent new = map (\<lambda>k. chunk_prompt (cs ! k)) [0..<n]"
    and models: "map model_sent new = map (\<lambda>k. llm) [0..<n]"
    and answers: "list_all (\<lambda>r. \<exists>t. outcome r = fst (client t (prompt_sent r) (model_sent r))) new"
    by auto
  let ?sums = "map (\<lambda>r. chunk_text (outcome r)) new"
  let ?p = "aggregate_prompt url vd ?sums"
  let ?agg = "\<lparr> site = Aggregate_Call, prompt_sent = ?p, model_sent = llm,
                outcome = fst (client s1 ?p llm) \<rparr>"
  have "map (\<lambda>k. chunk_prompt (cs ! k)) [0..<n] = map chunk_prompt (map (\<lambda>k. cs ! k) [0..<n])"
    by simp
  also have "map (\<lambda>k. cs ! k) [0..<n] = cs" unfolding assms(4) by (rule map_nth)
  finally have prompts': "map prompt_sent new = map chunk_prompt cs" using prompts by simp
  have m: "main client s llm L url vd (Some captions) =
       Inr \<lparr> chunks_made = cs, num_chunks_made = n, summaries_made = ?sums,
             requests_made = new @ [?agg],
             result = Summary (final_text (outcome ?agg)), service = snd (client s1 ?p llm) \<rparr>"
    using assms(1-3) run by (simp add: main_def summarize_captions_def aggregate_eq)
  have a: "\<exists>t. outcome ?agg = fst (client t (prompt_sent ?agg) (model_sent ?agg))"
    by (intro exI [of _ s1]) simp
  show ?thesis
    apply (rule exI [of _ new], rule exI [of _ ?agg], rule exI [of _ "snd (client s1 ?p llm)"])
    apply (intro conjI)
    subgoal by (rule m)
    subgoal by (rule sites)
    subgoal by (rule prompts')
    subgoal by (rule models)
    subgoal by (rule answers)
    subgoal by simp
    subgoal by simp
    subgoal by simp
    subgoal by (rule a)
    done
qed

lemma main_cases [consumes 1, case_names absent direct multi]:
  assumes "0 < L"
  obtains "video_captions = None \<or> video_captions = Some []"
  | captions n cs where "video_captions = Some captions" "captions \<noteq> []"
      "chunk_words (split_py captions) L = Inr (n, cs)" "n = length cs" "\<not> 1 < n"
  | captions n cs where "video_captions = Some captions" "captions \<noteq> []"
      "chunk_words (split_py captions) L = Inr (n, cs)" "n = length cs" "1 < n"
proof (cases video_captions)
  case None
  then show ?thesis using that(1) by simp
next
  case (Some captions)
  show ?thesis
  proof (cases "captions = []")
    case True
    with Some show ?thesis using that(1) by simp
  next
    case False
    from chunk_words_total [OF assms, of "split_py captions"]
    obtain n cs where "chunk_words (split_py captions) L = Inr (n, cs)" "n = length cs" by blast
    with Some False show ?thesis using that(2,3) by (cases "1 < n") blast+
  qed
qed

lemma requests_nth:
  assumes "map site new = map Chunk_Call [0..<n]" and "map prompt_sent new = map chunk_prompt cs"
    and "n = length cs" and "i < n"
  shows "length new = n" and "site (new ! i) = Chunk_Call i"
    and "prompt_sent (new ! i) = chunk_prompt (cs ! i)"
proof -
  from assms(1) have "length (map site new) = length (map Chunk_Call [0..<n])" by (rule arg_cong)
  then show len: "length new = n" by simp
  from assms(1) have "map site new ! i = map Chunk_Call [0..<n] ! i" by (rule arg_cong)
  with len assms(4) show "site (new ! i) = Chunk_Call i" by simp
  from assms(2) have "map prompt_sent new ! i = map chunk_prompt cs ! i" by (rule arg_cong)
  with len assms(3,4) show "prompt_sent (new ! i) = chunk_prompt (cs ! i)" by simp
qed

lemma main_multi_run:
  assumes "captions \<noteq> []" and "chunk_words (split_py captions) L = Inr (n, cs)"
    and "1 < n" and "n = length cs"
  shows "\<exists>r. main client s llm L url vd (Some captions) = Inr r
     \<and> chunks_made r = cs \<and> num_chunks_made r = n
     \<and> length (summaries_made r) = n \<and> length (requests_made r) = Suc n
     \<and> (\<forall>k<n. site (requests_made r ! k) = Chunk_Call k
              \<and> prompt_sent (requests_made r ! k) = chunk_prompt (cs ! k)
              \<and> model_sent (requests_made r ! k) = llm
              \<and> summaries_made r ! k = chunk_text (outcome (requests_made r ! k)))
     \<and> site (requests_made r ! n) = Aggregate_Call
     \<and> prompt_sent (requests_made r ! n) = aggregate_prompt url vd (summaries_made r)
     \<and> model_sent (requests_made r ! n) = llm
     \<and> result r = Summary (final_text (outcome (requests_made r ! n)))"
proof -
  from main_multi [OF assms, of client s llm url vd]
  obtain new agg s' where
    run: "main client s llm L url vd (Some captions) =
       Inr \<lparr> chunks_made = cs, num_chunks_made = n,
             summaries_made = map (\<lambda>r. chunk_text (outcome r)) new,
             requests_made = new @ [agg],
             result = Summary (final_text (outcome agg)), service = s' \<rparr>"
    and sites: "map site new = map Chunk_Call [0..<n]"
    and prompts: "map prompt_sent new = map chunk_prompt cs"
    and models: "map model_sent new = map (\<lambda>k. llm) [0..<n]"
    and agg: "site agg = Aggregate_Call"
      "prompt_sent agg = aggregate_prompt url vd (map (\<lambda>r. chunk_text (outcome r)) new)"
      "model_sent agg = llm"
    by blast
  have len: "length new = n"
    using requests_nth(1) [OF sites prompts assms(4)] assms(3) by simp
  have each: "site (new ! k) = Chunk_Call k \<and> prompt_sent (new ! k) = chunk_prompt (cs ! k)
      \<and> model_sent (new ! k) = llm" if "k < n" for k
  proof -
    from models have "map model_sent new ! k = map (\<lambda>k. llm) [0..<n] ! k" by (rule arg_cong)
    with that len have "model_sent (new ! k) = llm" by simp
    with requests_nth(2,3) [OF sites prompts assms(4) that] show ?thesis by simp
  qed
  let ?r = "\<lparr> chunks_made = cs, num_chunks_made = n,
             summaries_made = map (\<lambda>r. chunk_text (outcome r)) new,
             requests_made = new @ [agg],
             result = Summary (final_text (outcome agg)), service = s' \<rparr>"
  show ?thesis
    apply (rule exI [of _ ?r])
    apply (intro conjI)
    subgoal by (rule run)
    subgoal by simp
    subgoal by simp
    subgoal by (simp add: len)
    subgoal by (simp add: len)
    subgoal using each by (simp add: len nth_append)
    subgoal using agg(1) by (simp add: len [symmetric])
    subgoal using agg(2) by (simp add: len [symmetric])
    subgoal using agg(3) by (simp add: len [symmetric])
    subgoal by (simp add: len [symmetric])
    done
qed

lemma only_last_aggregates:
  assumes "length qs = Suc n" and "\<forall>k<n. site (qs ! k) = Chunk_Call k"
    and "site (qs ! n) = Aggregate_Call"
  shows "filter (\<lambda>q. site q = Aggregate_Call) qs = [qs ! n]"
proof -
  have qs: "qs = take n qs @ [qs ! n]"
    using assms(1) by (metis lessI take_Suc_conv_app_nth take_all order_refl)
  have "\<forall>q \<in> set (take n qs). site q \<noteq> Aggregate_Call"
  proof
    fix q assume "q \<in> set (take n qs)"
    then obtain k where "k < length (take n qs)" "q = take n qs ! k"
      by (auto simp: in_set_conv_nth)
    with assms(1,2) show "site q \<noteq> Aggregate_Call" by simp
  qed
  then have "filter (\<lambda>q. site q = Aggregate_Call) (take n qs) = []"
    by (simp add: filter_empty_conv)
  then have "filter (\<lambda>q. site q = Aggregate_Call) (take n qs @ [qs ! n]) = [qs ! n]"
    using assms(3) by simp
  with qs show ?thesis by simp
qed


lemma main_zero_limit:
  "captions \<noteq> [] \<Longrightarrow> main client s llm 0 url vd (Some captions) = Inl ValueError"
  by (simp add: main_def summarize_captions_def chunk_words_def)

lemma requests_determined:
  assumes "deterministic client"
    and "map site new = map Chunk_Call [0..<n]"
    and "map prompt_sent new = map chunk_prompt cs"
    and "map model_sent new = map (\<lambda>k. llm) [0..<n]"
    and "list_all (\<lambda>r. \<exists>t. outcome r = fst (client t (prompt_sent r) (model_sent r))) new"
    and "n = length cs"
  shows "new = map (\<lambda>k. \<lparr> site = Chunk_Call k, prompt_sent = chunk_prompt (cs ! k),
                           model_sent = llm,
                           outcome = fst (client s0 (chunk_prompt (cs ! k)) llm) \<rparr>) [0..<n]"
proof (rule nth_equalityI)
  from assms(2) have "length (map site new) = length (map Chunk_Call [0..<n])" by (rule arg_cong)
  then show len: "length new = length (map (\<lambda>k. \<lparr> site = Chunk_Call k,
      prompt_sent = chunk_prompt (cs ! k), model_sent = llm,
      outcome = fst (client s0 (chunk_prompt (cs ! k)) llm) \<rparr>) [0..<n])"
    by simp
  fix i assume "i < length new"
  with len have i: "i < n" "i < length new" by simp_all
  from requests_nth(2,3) [OF assms(2,3,6) i(1)]
  have sp: "site (new ! i) = Chunk_Call i" "prompt_sent (new ! i) = chunk_prompt (cs ! i)" .
  from assms(4) have "map model_sent new ! i = map (\<lambda>k. llm) [0..<n] ! i" by (rule arg_cong)
  with i have m: "model_sent (new ! i) = llm" by simp
  from assms(5) i(2) obtain t
    where "outcome (new ! i) = fst (client t (prompt_sent (new ! i)) (model_sent (new ! i)))"
    by (auto simp: list_all_length)
  with sp m have "outcome (new ! i) = fst (client t (chunk_prompt (cs ! i)) llm)" by simp
  also have "\<dots> = fst (client s0 (chunk_prompt (cs ! i)) llm)"
    using assms(1) by (simp add: deterministic_def)
  finally have o: "outcome (new ! i) = fst (client s0 (chunk_prompt (cs ! i)) llm)" .
  show "new ! i = map (\<lambda>k. \<lparr> site = Chunk_Call k, prompt_sent = chunk_prompt (cs ! k),
      model_sent = llm, outcome = fst (client s0 (chunk_prompt (cs ! k)) llm) \<rparr>) [0..<n] ! i"
    using sp m o i(1) by (cases "new ! i") simp
qed

lemma answers_Cons:
  "answers client s (q # qs) =
     (fst (client s (prompt_sent q) (model_sent q))
        # fst (answers client (snd (client s (prompt_sent q) (model_sent q))) qs),
      snd (answers client (snd (client s (prompt_sent q) (model_sent q))) qs))"
  by (simp split: prod.splits)

lemma answers_append:
  "answers client s (qs @ qs') =
     (fst (answers client s qs) @ fst (answers client (snd (answers client s qs)) qs'),
      snd (answers client (snd (answers client s qs)) qs'))"
  by (induction qs arbitrary: s) (simp_all add: answers_Cons del: answers.simps(2))

lemma summarize_loop_raises:
  "i < n \<Longrightarrow> \<not> i < length chunks \<Longrightarrow>
   summarize_loop client llm vd chunks n i (sums, reqs, s) = Inl IndexError"
  by (subst summarize_loop.simps) (simp add: index_def)

lemma summarize_loop_answers:
  assumes "summarize_loop client llm vd chunks n i (sums, reqs, s) = Inr (sums', reqs', s')"
  shows "\<exists>new. reqs' = reqs @ new \<and> answers client s new = (map outcome new, s')"
  using assms
proof (induction "n - i" arbitrary: i sums reqs s)
  case 0
  then have "\<not> i < n" by simp
  from summarize_loop_stop [OF this, of client llm vd chunks "(sums, reqs, s)"] "0.prems"
  have "reqs' = reqs" "s' = s" by simp_all
  then show ?case by (intro exI [of _ "[]"]) simp
next
  case (Suc d)
  then have lt: "i < n" by simp
  have len: "i < length chunks"
  proof (rule ccontr)
    assume "\<not> i < length chunks"
    from summarize_loop_raises [OF lt this, of client llm vd sums reqs s] Suc.prems
    show False by simp
  qed
  let ?o = "fst (client s (chunk_prompt (chunks ! i)) llm)"
  let ?q = "\<lparr> site = Chunk_Call i, prompt_sent = chunk_prompt (chunks ! i), model_sent = llm,
              outcome = ?o \<rparr>"
  let ?s = "snd (client s (chunk_prompt (chunks ! i)) llm)"
  from Suc.hyps(2) have d: "d = n - Suc i" by simp
  from Suc.prems summarize_loop_step [OF lt len, of client llm vd sums reqs s]
  have "summarize_loop client llm vd chunks n (Suc i) (sums @ [chunk_text ?o], reqs @ [?q], ?s)
          = Inr (sums', reqs', s')"
    by simp
  from Suc.hyps(1) [OF d this]
  obtain new where new: "reqs' = (reqs @ [?q]) @ new" "answers client ?s new = (map outcome new, s')"
    by blast
  have "answers client s (?q # new) = (map outcome (?q # new), s')"
    using new(2) by (simp add: answers_Cons del: answers.simps(2))
  with new(1) show ?case by (intro exI [of _ "?q # new"]) simp
qed

lemma main_answers:
  assumes "main client s llm L url vd video_captions = Inr r"
  shows "answers client s (requests_made r) = (map outcome (requests_made r), service r)"
proof (cases "video_captions = None \<or> video_captions = Some []")
  case True
  from main_absent [OF True, of client s llm L url vd] assms show ?thesis by auto
next
  case False
  then obtain captions where c: "video_captions = Some captions" "captions \<noteq> []"
    by (cases video_captions) auto
  show ?thesis
  proof (cases "L = 0")
    case True
    with c main_zero_limit [of captions client s llm url vd] assms show ?thesis by simp
  next
    case False
    then have L: "0 < L" by simp
    from chunk_words_total [OF L, of "split_py captions"]
    obtain n cs where cw: "chunk_words (split_py captions) L = Inr (n, cs)" and n: "n = length cs"
      by blast
    show ?thesis
    proof (cases "1 < n")
      case False
      from main_direct [OF c(2) cw False, of client s llm url vd] assms c(1)
      show ?thesis by (auto simp: answers_Cons simp del: answers.simps(2))
    next
      case True
      from n have "n \<le> length cs" by simp
      from summarize_loop_eq [OF this, of client llm vd 0 "[]" "[]" s]
      obtain sums reqs s1 where
        loop: "summarize_loop client llm vd cs n 0 ([], [], s) = Inr (sums, reqs, s1)"
        by auto
      from summarize_loop_answers [OF loop]
      have a: "answers client s reqs = (map outcome reqs, s1)" by simp
      let ?p = "aggregate_prompt url vd sums"
      let ?agg = "\<lparr> site = Aggregate_Call, prompt_sent = ?p, model_sent = llm,
                    outcome = fst (client s1 ?p llm) \<rparr>"
      have "main client s llm L url vd (Some captions) =
         Inr \<lparr> chunks_made = cs, num_chunks_made = n, summaries_made = sums,
               requests_made = reqs @ [?agg],
               result = Summary (final_text (outcome ?agg)), service = snd (client s1 ?p llm) \<rparr>"
        using c(2) cw True loop by (simp add: main_def summarize_captions_def aggregate_eq)
      with assms c(1) have r: "requests_made r = reqs @ [?agg]" "service r = snd (client s1 ?p llm)"
        by auto
      show ?thesis unfolding r answers_append a
        by (simp add: answers_Cons del: answers.simps(2))
    qed
  qed
qed

lemma last_request_answers:
  assumes "answers client s qs = (map outcome qs, t)" and "length qs = Suc n"
  shows "(outcome (qs ! n), t)
           = client (snd (answers client s (take n qs))) (prompt_sent (qs ! n)) (model_sent (qs ! n))"
proof -
  have qs: "qs = take n qs @ [qs ! n]"
    using assms(2) by (metis lessI take_Suc_conv_app_nth take_all order_refl)
  let ?s = "snd (answers client s (take n qs))"
  let ?c = "client ?s (prompt_sent (qs ! n)) (model_sent (qs ! n))"
  have "answers client s (take n qs @ [qs ! n])
          = (fst (answers client s (take n qs)) @ [fst ?c], snd ?c)"
    unfolding answers_append by (simp add: answers_Cons del: answers.simps(2))
  with qs assms(1) have e: "(map outcome qs, t) = (fst (answers client s (take n qs)) @ [fst ?c], snd ?c)"
    by simp
  then have "map outcome qs = fst (answers client s (take n qs)) @ [fst ?c]" and t: "t = snd ?c"
    by simp_all
  then have "last (map outcome qs) = fst ?c" by simp
  moreover have "qs \<noteq> []" using assms(2) by auto
  then have "last (map outcome qs) = outcome (qs ! n)"
    using assms(2) by (simp add: last_map last_conv_nth)
  ultimately show ?thesis using t by (simp add: prod_eq_iff)
qed

section \<open>Trimming\<close>

lemma strip_trims:
  shows "\<exists>a b. s = a @ strip s @ b \<and> list_all isspace a \<and> list_all isspace b"
  and "strip s = [] \<or> \<not> isspace (hd (strip s)) \<and> \<not> isspace (last (strip s))"
proof -
  define t where "t = dropWhile isspace s"
  define u where "u = dropWhile isspace (rev t)"
  have st: "strip s = rev u" by (simp add: strip_def t_def u_def)
  have s: "s = takeWhile isspace s @ t" by (simp add: t_def)
  have "rev t = takeWhile isspace (rev t) @ u" by (simp add: u_def)
  then have "rev (rev t) = rev (takeWhile isspace (rev t) @ u)" by (rule arg_cong)
  then have t: "t = rev u @ rev (takeWhile isspace (rev t))" by simp
  have a: "list_all isspace (takeWhile isspace s)"
    by (auto simp: list_all_iff dest: set_takeWhileD)
  have b: "list_all isspace (rev (takeWhile isspace (rev t)))"
    by (auto simp: list_all_iff dest: set_takeWhileD)
  from s t have "s = takeWhile isspace s @ strip s @ rev (takeWhile isspace (rev t))"
    by (simp add: st)
  with a b show "\<exists>a b. s = a @ strip s @ b \<and> list_all isspace a \<and> list_all isspace b"
    by blast
  show "strip s = [] \<or> \<not> isspace (hd (strip s)) \<and> \<not> isspace (last (strip s))"
  proof (cases "u = []")
    case True
    then show ?thesis by (simp add: st)
  next
    case False
    then have "\<not> isspace (hd u)" unfolding u_def by (rule hd_dropWhile)
    then have l: "\<not> isspace (last (rev u))" using False by (simp add: last_rev)
    from False t have "t \<noteq> []" by auto
    then have "\<not> isspace (hd t)" unfolding t_def by (rule hd_dropWhile)
    moreover have "hd t = hd (rev u)" using False by (subst t) simp
    ultimately show ?thesis using l by (simp add: st)
  qed
qed

section \<open>A transcript of 1001 words\<close>

lemma set_join: "set (join sep ws) \<subseteq> set sep \<union> (\<Union>w \<in> set ws. set w)"
  by (induction sep ws rule: join.induct) auto

lemma thousand_and_one_words:
  "join '' '' (replicate 1001 ''word'') \<noteq> []"
  "chunk_words (split_py (join '' '' (replicate 1001 ''word''))) 1000
     = Inr (2, [join '' '' (replicate 1000 ''word''), ''word''])"
proof -
  have w: "\<forall>w \<in> set (replicate 1001 ''word''). is_word w"
    by (simp add: is_word_def isspace_def)
  from split_py_join [OF w]
  have sp: "split_py (join '' '' (replicate 1001 ''word'')) = replicate 1001 ''word''" .
  show "join '' '' (replicate 1001 ''word'') \<noteq> []"
  proof
    assume "join '' '' (replicate 1001 ''word'') = []"
    with sp have "split_py [] = replicate 1001 ''word''" by simp
    then show False by (simp add: split_py_none)
  qed
  have two: "[0..<2] = [0, Suc 0]" by (simp add: upt_rec)
  have "(length (replicate 1001 ''word'') + (1000 - 1)) div 1000 = (2::nat)" by simp
  with chunk_words_eq [of 1000 "replicate 1001 ''word''"]
  have "chunk_words (replicate 1001 ''word'') 1000
     = Inr (2, map (\<lambda>k. join '' '' (take 1000 (drop (k * 1000) (replicate 1001 ''word'')))) [0..<2])"
    by simp
  also have "map (\<lambda>k. join '' '' (take 1000 (drop (k * 1000) (replicate 1001 ''word'')))) [0..<2]
      = [join '' '' (replicate 1000 ''word''), ''word'']"
    unfolding two by simp
  finally show "chunk_words (split_py (join '' '' (replicate 1001 ''word''))) 1000
     = Inr (2, [join '' '' (replicate 1000 ''word''), ''word''])"
    by (simp only: sp)
qed

section \<open>Example runs\<close>

lemma second_chunk_fails:
  "main (fails_on 1) 0 llama 2 video_url hamlet_data (Some ''to be or not to be'')
     = Inr \<lparr> chunks_made = [''to be'', ''or not'', ''to be''], num_chunks_made = 3,
             summaries_made =
               [''Summary 0.'', ''Error during API call: rate limit exceeded'', ''Summary 2.''],
             requests_made =
               [\<lparr> site = Chunk_Call 0,
                  prompt_sent = ''Summarize the following video captions:\<newline>to be'',
                  model_sent = llama, outcome = Inr ''  Summary 0.\<newline>'' \<rparr>,
                \<lparr> site = Chunk_Call 1,
                  prompt_sent = ''Summarize the following video captions:\<newline>or not'',
                  model_sent = llama, outcome = Inl ''rate limit exceeded'' \<rparr>,
                \<lparr> site = Chunk_Call 2,
                  prompt_sent = ''Summarize the following video captions:\<newline>to be'',
                  model_sent = llama, outcome = Inr ''  Summary 2.\<newline>'' \<rparr>,
                \<lparr> site = Aggregate_Call,
                  prompt_sent = ''Summarize the following captions:\<newline>Video URL: https://youtu.be/zjkBMFhNj_g\<newline>\<newline>Video Data: {title: Hamlet}\<newline>\<newline>Summaries:\<newline>\<newline>Chunk 1:\<newline>\<newline>Summary 0.\<newline>\<newline>---\<newline>\<newline>Chunk 2:\<newline>\<newline>Error during API call: rate limit exceeded\<newline>\<newline>---\<newline>\<newline>Chunk 3:\<newline>\<newline>Summary 2.\<newline>\<newline>---\<newline>\<newline>'',
                  model_sent = llama, outcome = Inr ''  Summary 3.\<newline>'' \<rparr>],
             result = Summary ''Summary 3.'', service = 4 \<rparr>"
  by code_simp

lemma aggregate_fails:
  "main (fails_on 3) 0 llama 2 video_url hamlet_data (Some ''to be or not to be'')
     = Inr \<lparr> chunks_made = [''to be'', ''or not'', ''to be''], num_chunks_made = 3,
             summaries_made = [''Summary 0.'', ''Summary 1.'', ''Summary 2.''],
             requests_made =
               [\<lparr> site = Chunk_Call 0,
                  prompt_sent = ''Summarize the following video captions:\<newline>to be'',
                  model_sent = llama, outcome = Inr ''  Summary 0.\<newline>'' \<rparr>,
                \<lparr> site = Chunk_Call 1,
                  prompt_sent = ''Summarize the following video captions:\<newline>or not'',
                  model_sent = llama, outcome = Inr ''  Summary 1.\<newline>'' \<rparr>,
                \<lparr> site = Chunk_Call 2,
                  prompt_sent = ''Summarize the following video captions:\<newline>to be'',
                  model_sent = llama, outcome = Inr ''  Summary 2.\<newline>'' \<rparr>,
                \<lparr> site = Aggregate_Call,
                  prompt_sent = ''Summarize the following captions:\<newline>Video URL: https://youtu.be/zjkBMFhNj_g\<newline>\<newline>Video Data: {title: Hamlet}\<newline>\<newline>Summaries:\<newline>\<newline>Chunk 1:\<newline>\<newline>Summary 0.\<newline>\<newline>---\<newline>\<newline>Chunk 2:\<newline>\<newline>Summary 1.\<newline>\<newline>---\<newline>\<newline>Chunk 3:\<newline>\<newline>Summary 2.\<newline>\<newline>---\<newline>\<newline>'',
                  model_sent = llama, outcome = Inl ''rate limit exceeded'' \<rparr>],
             result = Summary ''Error during final summary generation: rate limit exceeded'',
             service = 4 \<rparr>"
  by code_simp

lemma direct_fails:
  "main (fails_on 1) 1 llama 1000 video_url hamlet_data (Some ''to be'')
     = Inr \<lparr> chunks_made = [''to be''], num_chunks_made = 1, summaries_made = [],
             requests_made =
               [\<lparr> site = Direct_Call,
                  prompt_sent = ''Summarize the following video captions:\<newline>to be'',
                  model_sent = llama, outcome = Inl ''rate limit exceeded'' \<rparr>],
             result = Summary ''Error during summary generation: rate limit exceeded'',
             service = 2 \<rparr>"
  by code_simp

lemma direct_answers:
  "main steady 0 llama 1000 video_url hamlet_data (Some ''to be'')
     = Inr \<lparr> chunks_made = [''to be''], num_chunks_made = 1, summaries_made = [],
             requests_made =
               [\<lparr> site = Direct_Call,
                  prompt_sent = ''Summarize the following video captions:\<newline>to be'',
                  model_sent = llama,
                  outcome = Inr '' llama3-8b-8192 read 45 characters.\<newline>'' \<rparr>],
             result = Summary ''llama3-8b-8192 read 45 characters.'', service = 1 \<rparr>"
  by code_simp

lemma steady_is_deterministic: "deterministic steady"
  by (simp add: deterministic_def steady_def)

lemma steady_run:
  "observed (main steady 0 llama 2 video_url hamlet_data (Some ''to be or not to be''))
     = Inr ([''to be'', ''or not'', ''to be''], 3,
            [''llama3-8b-8192 read 45 characters.'', ''llama3-8b-8192 read 46 characters.'',
             ''llama3-8b-8192 read 45 characters.''],
            [\<lparr> site = Chunk_Call 0,
               prompt_sent = ''Summarize the following video captions:\<newline>to be'',
               model_sent = llama,
               outcome = Inr '' llama3-8b-8192 read 45 characters.\<newline>'' \<rparr>,
             \<lparr> site = Chunk_Call 1,
               prompt_sent = ''Summarize the following video captions:\<newline>or not'',
               model_sent = llama,
               outcome = Inr '' llama3-8b-8192 read 46 characters.\<newline>'' \<rparr>,
             \<lparr> site = Chunk_Call 2,
               prompt_sent = ''Summarize the following video captions:\<newline>to be'',
               model_sent = llama,
               outcome = Inr '' llama3-8b-8192 read 45 characters.\<newline>'' \<rparr>,
             \<lparr> site = Aggregate_Call,
               prompt_sent = ''Summarize the following captions:\<newline>Video URL: https://youtu.be/zjkBMFhNj_g\<newline>\<newline>Video Data: {title: Hamlet}\<newline>\<newline>Summaries:\<newline>\<newline>Chunk 1:\<newline>\<newline>llama3-8b-8192 read 45 characters.\<newline>\<newline>---\<newline>\<newline>Chunk 2:\<newline>\<newline>llama3-8b-8192 read 46 characters.\<newline>\<newline>---\<newline>\<newline>Chunk 3:\<newline>\<newline>llama3-8b-8192 read 45 characters.\<newline>\<newline>---\<newline>\<newline>'',
               model_sent = llama,
               outcome = Inr '' llama3-8b-8192 read 269 characters.\<newline>'' \<rparr>],
            Summary ''llama3-8b-8192 read 269 characters.'')"
  by code_simp

section \<open>The claims of the specification\<close>

text \<open>
  C1. Chunking a transcript \<open>T\<close> of words with a limit \<open>L > 0\<close> never fails and yields
  \<open>ceil(len(T) / L)\<close> chunks (the count is the least \<open>n\<close> with \<open>len(T) \<le> n * L\<close>);
  the words of the chunks, concatenated in order, are \<open>T\<close>; every chunk but the last has
  exactly \<open>L\<close> words; the last has \<open>len(T) mod L\<close> words, or \<open>L\<close> when \<open>L\<close> divides a non-zero
  \<open>len(T)\<close>; and a non-empty transcript shorter than \<open>L\<close> gives the one chunk that holds
  all of it.
\<close>

theorem chunking_partitions_transcript:
  assumes "0 < L" and "\<forall>w \<in> set T. is_word w"
  shows "\<exists>n cs. chunk_words T L = Inr (n, cs)
           \<and> n = length cs
           \<and> length cs = (length T + (L - 1)) div L
           \<and> length T \<le> length cs * L \<and> length cs * L < length T + L
           \<and> concat (map split_py cs) = T
           \<and> (\<forall>k. Suc k < length cs \<longrightarrow> length (split_py (cs ! k)) = L)
           \<and> (T \<noteq> [] \<longrightarrow>
                 length (split_py (last cs)) = (if length T mod L = 0 then L else length T mod L))
           \<and> (T \<noteq> [] \<and> length T < L \<longrightarrow> cs = [join '' '' T] \<and> split_py (join '' '' T) = T)"
proof -
  define m where "m = (length T + (L - 1)) div L"
  define cs where "cs = map (\<lambda>k. join '' '' (take L (drop (k * L) T))) [0..<m]"
  have run: "chunk_words T L = Inr (m, cs)"
    unfolding m_def cs_def by (rule chunk_words_eq [OF assms(1)])
  have len: "length cs = m" by (simp add: cs_def)
  have nth: "split_py (cs ! k) = take L (drop (k * L) T)" if "k < m" for k
    using that by (simp add: cs_def split_py_piece [OF assms(2)])
  have lo: "length T \<le> m * L" and hi: "m * L < length T + L"
    unfolding m_def by (rule ceil_bounds [OF assms(1)])+
  have "map split_py cs = map (\<lambda>k. take L (drop (k * L) T)) [0..<m]"
    by (simp add: cs_def split_py_piece [OF assms(2)])
  then have cat: "concat (map split_py cs) = T"
    using lo by (simp add: concat_pieces)
  have full: "length (split_py (cs ! k)) = L" if "Suc k < m" for k
  proof -
    from that have "k * L + L \<le> length T"
      unfolding m_def by (rule full_piece [OF assms(1)])
    moreover from that have "k < m" by simp
    ultimately show ?thesis by (simp add: nth)
  qed
  have lst: "length (split_py (last cs)) = (if length T mod L = 0 then L else length T mod L)"
    if "T \<noteq> []"
  proof -
    from that lo have "0 < m" by (cases m) auto
    then have "cs \<noteq> []" using len by auto
    then have "last cs = cs ! (m - 1)" by (simp add: last_conv_nth len)
    with \<open>0 < m\<close> have "length (split_py (last cs)) = min L (length T - (m - 1) * L)"
      by (simp add: nth min.commute)
    also have "\<dots> = (if length T mod L = 0 then L else length T mod L)"
      unfolding m_def using that by (intro last_piece [OF assms(1)]) simp
    finally show ?thesis .
  qed
  have one: "cs = [join '' '' T] \<and> split_py (join '' '' T) = T" if "T \<noteq> []" "length T < L"
  proof -
    from that have "m = 1"
      using ceil_div [OF assms(1), of "length T"] by (simp add: m_def)
    with that show ?thesis by (simp add: cs_def split_py_join [OF assms(2)])
  qed
  show ?thesis
    using run len lo hi cat full lst one unfolding m_def [symmetric] by (intro exI [of _ m] exI [of _ cs]) simp
qed

theorem chunking_partitions_transcript_witness:
  "0 < (2::nat) \<and> is_word ''to'' \<and> is_word ''be'' \<and> is_word ''or''
   \<and> (\<exists>n cs. chunk_words [''to'', ''be'', ''or''] 2 = Inr (n, cs)
           \<and> n = length cs
           \<and> length cs = (length [''to'', ''be'', ''or''] + (2 - 1)) div 2
           \<and> length [''to'', ''be'', ''or''] \<le> length cs * 2
           \<and> length cs * 2 < length [''to'', ''be'', ''or''] + 2
           \<and> concat (map split_py cs) = [''to'', ''be'', ''or'']
           \<and> (\<forall>k. Suc k < length cs \<longrightarrow> length (split_py (cs ! k)) = 2)
           \<and> ([''to'', ''be'', ''or''] \<noteq> [] \<longrightarrow>
                 length (split_py (last cs)) =
                   (if length [''to'', ''be'', ''or''] mod 2 = 0 then 2
                    else length [''to'', ''be'', ''or''] mod 2))
           \<and> ([''to'', ''be'', ''or''] \<noteq> [] \<and> length [''to'', ''be'', ''or''] < 2 \<longrightarrow>
                 cs = [join '' '' [''to'', ''be'', ''or'']]
                 \<and> split_py (join '' '' [''to'', ''be'', ''or'']) = [''to'', ''be'', ''or'']))"
proof -
  have l: "0 < (2::nat)" by simp
  have w: "\<forall>w \<in> set [''to'', ''be'', ''or'']. is_word w"
    by (simp add: is_word_def isspace_def)
  from chunking_partitions_transcript [OF l w] l w show ?thesis by simp
qed

text \<open>
  C2. The run of \<open>main\<close> on captions of 1001 words with the limit 1000 makes two chunks. The
  prompt sent for each is the literal prefix followed by the text of the chunk and nothing
  more: the video data, which \<open>chunk_info\<close> holds, occurs in neither prompt.
\<close>

theorem chunk_prompt_omits_video_data:
  "\<exists>r. main steady 0 ''llama3-8b-8192'' 1000 ''https://youtu.be/zjkBMFhNj_g''
          ''{title: Intro to Large Language Models}''
          (Some (join '' '' (replicate 1001 ''word''))) = Inr r
     \<and> chunks_made r = [join '' '' (replicate 1000 ''word''), ''word'']
     \<and> prompt_sent (requests_made r ! 0)
         = ''Summarize the following video captions:\<newline>'' @ join '' '' (replicate 1000 ''word'')
     \<and> prompt_sent (requests_made r ! 1) = ''Summarize the following video captions:\<newline>word''
     \<and> (\<nexists>a b. prompt_sent (requests_made r ! 0)
                  = a @ ''{title: Intro to Large Language Models}'' @ b)
     \<and> (\<nexists>a b. prompt_sent (requests_made r ! 1)
                  = a @ ''{title: Intro to Large Language Models}'' @ b)"
proof -
  let ?cs = "[join '' '' (replicate 1000 ''word''), ''word'']"
  have len: "(2::nat) = length ?cs" by simp
  have two: "(1::nat) < 2" by simp
  from main_multi_run [OF thousand_and_one_words two len,
      of steady 0 "''llama3-8b-8192''" "''https://youtu.be/zjkBMFhNj_g''"
        "''{title: Intro to Large Language Models}''"]
  obtain r where r: "main steady 0 ''llama3-8b-8192'' 1000 ''https://youtu.be/zjkBMFhNj_g''
          ''{title: Intro to Large Language Models}''
          (Some (join '' '' (replicate 1001 ''word''))) = Inr r"
    and cs: "chunks_made r = ?cs"
    and each: "\<forall>k<2. site (requests_made r ! k) = Chunk_Call k
              \<and> prompt_sent (requests_made r ! k) = chunk_prompt (?cs ! k)
              \<and> model_sent (requests_made r ! k) = ''llama3-8b-8192''
              \<and> summaries_made r ! k = chunk_text (outcome (requests_made r ! k))"
    by blast
  from each have p0: "prompt_sent (requests_made r ! 0)
       = ''Summarize the following video captions:\<newline>'' @ join '' '' (replicate 1000 ''word'')"
    by (simp del: join.simps replicate.simps)
  have "(1::nat) < 2" by simp
  with each have "prompt_sent (requests_made r ! 1) = chunk_prompt (?cs ! 1)" by blast
  then have p1: "prompt_sent (requests_made r ! 1) = ''Summarize the following video captions:\<newline>word''"
    by simp
  have brace0: "CHR ''{'' \<notin> set (prompt_sent (requests_made r ! 0))"
  proof -
    have "set (join '' '' (replicate 1000 ''word'')) \<subseteq> set '' '' \<union> set ''word''"
      using set_join [of "'' ''" "replicate 1000 ''word''"] by auto
    then have "CHR ''{'' \<notin> set (join '' '' (replicate 1000 ''word''))" by auto
    then show ?thesis unfolding p0 by simp
  qed
  have brace1: "CHR ''{'' \<notin> set (prompt_sent (requests_made r ! 1))"
    unfolding p1 by simp
  have no: "\<nexists>a b. p = a @ ''{title: Intro to Large Language Models}'' @ b"
    if "CHR ''{'' \<notin> set p" for p
  proof
    assume "\<exists>a b. p = a @ ''{title: Intro to Large Language Models}'' @ b"
    then obtain a b where "p = a @ ''{title: Intro to Large Language Models}'' @ b" by blast
    then have "CHR ''{'' \<in> set p" by simp
    with that show False by simp
  qed
  from r cs p0 p1 no [OF brace0] no [OF brace1] show ?thesis
    by (intro exI [of _ r] conjI)
qed

text \<open>
  C3, for captions that are absent or empty. When the caption source returns no captions or
  the empty string, the run makes no chunk, shows the could-not-parse message and sends no
  completion request; and a run that sends any request has received a caption string that is
  not empty.
\<close>

theorem no_request_without_captions:
  "(video_captions = None \<or> video_captions = Some [] \<longrightarrow>
      main client s llm L url vd video_captions =
        Inr \<lparr> chunks_made = [], num_chunks_made = 0, summaries_made = [], requests_made = [],
              result = Fallback could_not_parse, service = s \<rparr>)
   \<and> (\<forall>r. main client s llm L url vd video_captions = Inr r \<and> requests_made r \<noteq> [] \<longrightarrow>
          (\<exists>captions. video_captions = Some captions \<and> captions \<noteq> []))"
proof (intro conjI impI allI)
  assume "video_captions = None \<or> video_captions = Some []"
  then show "main client s llm L url vd video_captions =
        Inr \<lparr> chunks_made = [], num_chunks_made = 0, summaries_made = [], requests_made = [],
              result = Fallback could_not_parse, service = s \<rparr>"
    by (rule main_absent)
next
  fix r
  assume a: "main client s llm L url vd video_captions = Inr r \<and> requests_made r \<noteq> []"
  show "\<exists>captions. video_captions = Some captions \<and> captions \<noteq> []"
  proof (rule ccontr)
    assume "\<not> (\<exists>captions. video_captions = Some captions \<and> captions \<noteq> [])"
    then have "video_captions = None \<or> video_captions = Some []"
      by (cases video_captions) auto
    from main_absent [OF this, of client s llm L url vd] a show False by simp
  qed
qed

theorem no_request_without_captions_witness:
  "main steady 0 llama 1000 video_url hamlet_data (Some []) =
     Inr \<lparr> chunks_made = [], num_chunks_made = 0, summaries_made = [], requests_made = [],
           result = Fallback ''Sorry, could not parse the video. Please try again or use a different video.'',
           service = 0 \<rparr>
   \<and> main steady 0 llama 1000 video_url hamlet_data None =
     Inr \<lparr> chunks_made = [], num_chunks_made = 0, summaries_made = [], requests_made = [],
           result = Fallback ''Sorry, could not parse the video. Please try again or use a different video.'',
           service = 0 \<rparr>
   \<and> (\<exists>r captions. main (fails_on 1) 0 llama 2 video_url hamlet_data (Some ''to be or not to be'') = Inr r
          \<and> requests_made r \<noteq> []
          \<and> Some ''to be or not to be'' = Some captions \<and> captions \<noteq> [])"
proof -
  have e: "(Some [] :: string option) = None \<or> (Some [] :: string option) = Some []" by simp
  have n: "(None :: string option) = None \<or> (None :: string option) = Some []" by simp
  from no_request_without_captions [of "Some []" steady 0 llama 1000 video_url hamlet_data,
      THEN conjunct1, rule_format, OF e]
  have A: "main steady 0 llama 1000 video_url hamlet_data (Some []) =
     Inr \<lparr> chunks_made = [], num_chunks_made = 0, summaries_made = [], requests_made = [],
           result = Fallback ''Sorry, could not parse the video. Please try again or use a different video.'',
           service = 0 \<rparr>"
    by (simp only: could_not_parse_def)
  from no_request_without_captions [of None steady 0 llama 1000 video_url hamlet_data,
      THEN conjunct1, rule_format, OF n]
  have B: "main steady 0 llama 1000 video_url hamlet_data None =
     Inr \<lparr> chunks_made = [], num_chunks_made = 0, summaries_made = [], requests_made = [],
           result = Fallback ''Sorry, could not parse the video. Please try again or use a different video.'',
           service = 0 \<rparr>"
    by (simp only: could_not_parse_def)
  let ?r = "\<lparr> chunks_made = [''to be'', ''or not'', ''to be''], num_chunks_made = 3,
             summaries_made =
               [''Summary 0.'', ''Error during API call: rate limit exceeded'', ''Summary 2.''],
             requests_made =
               [\<lparr> site = Chunk_Call 0,
                  prompt_sent = ''Summarize the following video captions:\<newline>to be'',
                  model_sent = llama, outcome = Inr ''  Summary 0.\<newline>'' \<rparr>,
                \<lparr> site = Chunk_Call 1,
                  prompt_sent = ''Summarize the following video captions:\<newline>or not'',
                  model_sent = llama, outcome = Inl ''rate limit exceeded'' \<rparr>,
                \<lparr> site = Chunk_Call 2,
                  prompt_sent = ''Summarize the following video captions:\<newline>to be'',
                  model_sent = llama, outcome = Inr ''  Summary 2.\<newline>'' \<rparr>,
                \<lparr> site = Aggregate_Call,
                  prompt_sent = ''Summarize the following captions:\<newline>Video URL: https://youtu.be/zjkBMFhNj_g\<newline>\<newline>Video Data: {title: Hamlet}\<newline>\<newline>Summaries:\<newline>\<newline>Chunk 1:\<newline>\<newline>Summary 0.\<newline>\<newline>---\<newline>\<newline>Chunk 2:\<newline>\<newline>Error during API call: rate limit exceeded\<newline>\<newline>---\<newline>\<newline>Chunk 3:\<newline>\<newline>Summary 2.\<newline>\<newline>---\<newline>\<newline>'',
                  model_sent = llama, outcome = Inr ''  Summary 3.\<newline>'' \<rparr>],
             result = Summary ''Summary 3.'', service = 4 \<rparr> :: nat run"
  have ne: "requests_made ?r \<noteq> []" by simp
  from no_request_without_captions [of "Some ''to be or not to be''" "fails_on 1" 0 llama 2
      video_url hamlet_data, THEN conjunct2, rule_format, of ?r] second_chunk_fails ne
  obtain captions where "Some ''to be or not to be'' = Some captions" "captions \<noteq> []"
    by blast
  with second_chunk_fails ne
  have C: "\<exists>r captions. main (fails_on 1) 0 llama 2 video_url hamlet_data (Some ''to be or not to be'') = Inr r
          \<and> requests_made r \<noteq> []
          \<and> Some ''to be or not to be'' = Some captions \<and> captions \<noteq> []"
    by (intro exI [of _ ?r] exI [of _ captions] conjI)
  from A B C show ?thesis by (intro conjI)
qed

text \<open>
  C3, for captions without a word. Captions that hold whitespace only have no word, yet the
  run does not stop at them: the string is not empty, so the
  guard of line 122 lets it pass; it has no word, so there is no chunk; and the branch for
  at most one chunk sends the direct request and shows its answer.
\<close>

theorem blank_captions_counterexample:
  "split_py '' '' = []
   \<and> main steady 0 ''llama3-8b-8192'' 1000 ''https://youtu.be/zjkBMFhNj_g'' ''{title: Intro}'' (Some '' '')
     = Inr \<lparr> chunks_made = [], num_chunks_made = 0, summaries_made = [],
             requests_made =
               [\<lparr> site = Direct_Call,
                  prompt_sent = ''Summarize the following video captions:\<newline> '',
                  model_sent = ''llama3-8b-8192'',
                  outcome = Inr '' llama3-8b-8192 read 41 characters.\<newline>'' \<rparr>],
             result = Summary ''llama3-8b-8192 read 41 characters.'', service = 1 \<rparr>"
  by code_simp

text \<open>
  C4. With a limit above 0 the run returns a result whatever the client does: no error of a
  completion call leaves \<open>main\<close>. When a chunk-level call raises, the summary recorded for
  that chunk is \<open>Error during API call: \<close> followed by the detail, and the run still makes
  one request per chunk, in order, and then the aggregate request. When the aggregate call
  raises, the report is \<open>Error during final summary generation: \<close> followed by the detail;
  when the direct call raises, it is \<open>Error during summary generation: \<close> followed by the
  detail.
\<close>

theorem completion_failure_is_recorded:
  assumes "0 < L"
  shows "\<exists>r. main client s llm L url vd video_captions = Inr r
     \<and> (1 < num_chunks_made r \<longrightarrow>
           length (summaries_made r) = num_chunks_made r
         \<and> length (requests_made r) = Suc (num_chunks_made r)
         \<and> (\<forall>k<num_chunks_made r.
               site (requests_made r ! k) = Chunk_Call k
             \<and> (\<forall>e. outcome (requests_made r ! k) = Inl e \<longrightarrow>
                    summaries_made r ! k = ''Error during API call: '' @ e))
         \<and> site (requests_made r ! num_chunks_made r) = Aggregate_Call
         \<and> (\<forall>e. outcome (requests_made r ! num_chunks_made r) = Inl e \<longrightarrow>
                result r = Summary (''Error during final summary generation: '' @ e)))
     \<and> (num_chunks_made r \<le> 1 \<longrightarrow>
           (\<forall>q e. requests_made r = [q] \<and> outcome q = Inl e \<longrightarrow>
              result r = Summary (''Error during summary generation: '' @ e)))"
  using assms
proof (cases rule: main_cases [where video_captions = video_captions])
  case absent
  from main_absent [OF this, of client s llm L url vd] show ?thesis by simp
next
  case (direct captions n cs)
  from main_direct [OF direct(2,3,5), of client s llm url vd] direct(1,4,5) show ?thesis
    by auto
next
  case (multi captions n cs)
  from main_multi_run [OF multi(2,3,5,4), of client s llm url vd]
  obtain r where r: "main client s llm L url vd (Some captions) = Inr r"
    and n: "num_chunks_made r = n"
    and lens: "length (summaries_made r) = n" "length (requests_made r) = Suc n"
    and each: "\<forall>k<n. site (requests_made r ! k) = Chunk_Call k
              \<and> prompt_sent (requests_made r ! k) = chunk_prompt (cs ! k)
              \<and> model_sent (requests_made r ! k) = llm
              \<and> summaries_made r ! k = chunk_text (outcome (requests_made r ! k))"
    and agg: "site (requests_made r ! n) = Aggregate_Call"
      "result r = Summary (final_text (outcome (requests_made r ! n)))"
    by blast
  have "\<forall>k<n. site (requests_made r ! k) = Chunk_Call k
             \<and> (\<forall>e. outcome (requests_made r ! k) = Inl e \<longrightarrow>
                    summaries_made r ! k = ''Error during API call: '' @ e)"
    using each by simp
  moreover have "\<forall>e. outcome (requests_made r ! n) = Inl e \<longrightarrow>
      result r = Summary (''Error during final summary generation: '' @ e)"
    using agg(2) by simp
  ultimately show ?thesis
    using r n lens agg(1) multi(1,5) by (intro exI [of _ r]) simp
qed

theorem completion_failure_is_recorded_witness:
  "0 < (2::nat)
   \<and> (\<exists>r. main (fails_on 1) 0 llama 2 video_url hamlet_data (Some ''to be or not to be'') = Inr r
          \<and> outcome (requests_made r ! 1) = Inl ''rate limit exceeded''
          \<and> summaries_made r ! 1 = ''Error during API call: rate limit exceeded''
          \<and> length (summaries_made r) = 3 \<and> length (requests_made r) = 4
          \<and> site (requests_made r ! 2) = Chunk_Call 2
          \<and> site (requests_made r ! 3) = Aggregate_Call)
   \<and> (\<exists>r. main (fails_on 3) 0 llama 2 video_url hamlet_data (Some ''to be or not to be'') = Inr r
          \<and> outcome (requests_made r ! 3) = Inl ''rate limit exceeded''
          \<and> result r = Summary ''Error during final summary generation: rate limit exceeded'')
   \<and> 0 < (1000::nat)
   \<and> (\<exists>r. main (fails_on 1) 1 llama 1000 video_url hamlet_data (Some ''to be'') = Inr r
          \<and> map outcome (requests_made r) = [Inl ''rate limit exceeded'']
          \<and> result r = Summary ''Error during summary generation: rate limit exceeded'')"
proof -
  have two: "0 < (2::nat)" and thousand: "0 < (1000::nat)" by simp_all
  from completion_failure_is_recorded [OF two, of "fails_on 1" 0 llama video_url hamlet_data
      "Some ''to be or not to be''"]
  obtain r where r: "main (fails_on 1) 0 llama 2 video_url hamlet_data (Some ''to be or not to be'') = Inr r"
    and multi: "1 < num_chunks_made r \<longrightarrow>
           length (summaries_made r) = num_chunks_made r
         \<and> length (requests_made r) = Suc (num_chunks_made r)
         \<and> (\<forall>k<num_chunks_made r.
               site (requests_made r ! k) = Chunk_Call k
             \<and> (\<forall>e. outcome (requests_made r ! k) = Inl e \<longrightarrow>
                    summaries_made r ! k = ''Error during API call: '' @ e))
         \<and> site (requests_made r ! num_chunks_made r) = Aggregate_Call
         \<and> (\<forall>e. outcome (requests_made r ! num_chunks_made r) = Inl e \<longrightarrow>
                result r = Summary (''Error during final summary generation: '' @ e))"
    by (elim exE conjE) (rule that, assumption+)
  from r second_chunk_fails have n: "num_chunks_made r = 3"
    and o: "outcome (requests_made r ! 1) = Inl ''rate limit exceeded''" by auto
  from multi n have lens: "length (summaries_made r) = 3" "length (requests_made r) = 4"
    and each: "\<forall>k<3. site (requests_made r ! k) = Chunk_Call k
             \<and> (\<forall>e. outcome (requests_made r ! k) = Inl e \<longrightarrow>
                    summaries_made r ! k = ''Error during API call: '' @ e)"
    and agg: "site (requests_made r ! 3) = Aggregate_Call"
    by simp_all
  have "(1::nat) < 3" "(2::nat) < 3" by simp_all
  with each have "\<forall>e. outcome (requests_made r ! 1) = Inl e \<longrightarrow>
                    summaries_made r ! 1 = ''Error during API call: '' @ e"
    and s2: "site (requests_made r ! 2) = Chunk_Call 2" by blast+
  with o have "summaries_made r ! 1 = ''Error during API call: '' @ ''rate limit exceeded''"
    by blast
  then have rec: "summaries_made r ! 1 = ''Error during API call: rate limit exceeded''" by simp
  have A: "\<exists>r. main (fails_on 1) 0 llama 2 video_url hamlet_data (Some ''to be or not to be'') = Inr r
          \<and> outcome (requests_made r ! 1) = Inl ''rate limit exceeded''
          \<and> summaries_made r ! 1 = ''Error during API call: rate limit exceeded''
          \<and> length (summaries_made r) = 3 \<and> length (requests_made r) = 4
          \<and> site (requests_made r ! 2) = Chunk_Call 2
          \<and> site (requests_made r ! 3) = Aggregate_Call"
    using r o rec lens s2 agg by (intro exI [of _ r] conjI)
  from completion_failure_is_recorded [OF two, of "fails_on 3" 0 llama video_url hamlet_data
      "Some ''to be or not to be''"]
  obtain t where t: "main (fails_on 3) 0 llama 2 video_url hamlet_data (Some ''to be or not to be'') = Inr t"
    and multi': "1 < num_chunks_made t \<longrightarrow>
           length (summaries_made t) = num_chunks_made t
         \<and> length (requests_made t) = Suc (num_chunks_made t)
         \<and> (\<forall>k<num_chunks_made t.
               site (requests_made t ! k) = Chunk_Call k
             \<and> (\<forall>e. outcome (requests_made t ! k) = Inl e \<longrightarrow>
                    summaries_made t ! k = ''Error during API call: '' @ e))
         \<and> site (requests_made t ! num_chunks_made t) = Aggregate_Call
         \<and> (\<forall>e. outcome (requests_made t ! num_chunks_made t) = Inl e \<longrightarrow>
                result t = Summary (''Error during final summary generation: '' @ e))"
    by (elim exE conjE) (rule that, assumption+)
  from t aggregate_fails have n': "num_chunks_made t = 3"
    and o': "outcome (requests_made t ! 3) = Inl ''rate limit exceeded''" by auto
  from multi' n' have "\<forall>e. outcome (requests_made t ! 3) = Inl e \<longrightarrow>
                result t = Summary (''Error during final summary generation: '' @ e)"
    by simp
  with o' have "result t = Summary (''Error during final summary generation: '' @ ''rate limit exceeded'')"
    by blast
  then have "result t = Summary ''Error during final summary generation: rate limit exceeded''"
    by simp
  with t o' have B: "\<exists>r. main (fails_on 3) 0 llama 2 video_url hamlet_data (Some ''to be or not to be'') = Inr r
          \<and> outcome (requests_made r ! 3) = Inl ''rate limit exceeded''
          \<and> result r = Summary ''Error during final summary generation: rate limit exceeded''"
    by (intro exI [of _ t] conjI)
  from completion_failure_is_recorded [OF thousand, of "fails_on 1" 1 llama video_url hamlet_data
      "Some ''to be''"]
  obtain u where u: "main (fails_on 1) 1 llama 1000 video_url hamlet_data (Some ''to be'') = Inr u"
    and single: "num_chunks_made u \<le> 1 \<longrightarrow>
           (\<forall>q e. requests_made u = [q] \<and> outcome q = Inl e \<longrightarrow>
              result u = Summary (''Error during summary generation: '' @ e))"
    by (elim exE conjE) (rule that, assumption+)
  from u direct_fails have n'': "num_chunks_made u \<le> 1"
    and q: "requests_made u =
               [\<lparr> site = Direct_Call,
                  prompt_sent = ''Summarize the following video captions:\<newline>to be'',
                  model_sent = llama, outcome = Inl ''rate limit exceeded'' \<rparr>]"
    by auto
  from single n'' have "\<forall>q e. requests_made u = [q] \<and> outcome q = Inl e \<longrightarrow>
              result u = Summary (''Error during summary generation: '' @ e)" by blast
  from this [rule_format, of "\<lparr> site = Direct_Call,
                  prompt_sent = ''Summarize the following video captions:\<newline>to be'',
                  model_sent = llama, outcome = Inl ''rate limit exceeded'' \<rparr>" "''rate limit exceeded''"] q
  have "result u = Summary (''Error during summary generation: '' @ ''rate limit exceeded'')"
    by simp
  then have "result u = Summary ''Error during summary generation: rate limit exceeded''"
    by simp
  moreover from q have "map outcome (requests_made u) = [Inl ''rate limit exceeded'']" by simp
  ultimately have C: "\<exists>r. main (fails_on 1) 1 llama 1000 video_url hamlet_data (Some ''to be'') = Inr r
          \<and> map outcome (requests_made r) = [Inl ''rate limit exceeded'']
          \<and> result r = Summary ''Error during summary generation: rate limit exceeded''"
    using u by (intro exI [of _ u] conjI)
  from two A B thousand C show ?thesis by (intro conjI)
qed

text \<open>
  C5. With a limit above 0 the run returns, and the completion calls it makes are those of
  its requests and no others: the client is applied once to each request, in order, with the
  selected model, and the state it leaves after the last is the state of the service at the
  end. The requests follow the chunk count \<open>N\<close>: when \<open>N > 1\<close> they are the \<open>N\<close>
  chunk-level requests, for chunks 0 to \<open>N - 1\<close> in that order and each with its chunk's
  prompt, followed by the one aggregate request and nothing else; when \<open>N = 1\<close> there is no
  chunk-level request and exactly one direct request, whose prompt carries the full caption
  text.
\<close>

theorem completion_calls_by_chunk_count:
  assumes "0 < L"
  shows "\<exists>r. main client s llm L url vd video_captions = Inr r
     \<and> num_chunks_made r = length (chunks_made r)
     \<and> answers client s (requests_made r) = (map outcome (requests_made r), service r)
     \<and> map model_sent (requests_made r) = map (\<lambda>q. llm) (requests_made r)
     \<and> (1 < num_chunks_made r \<longrightarrow>
           map site (requests_made r) = map Chunk_Call [0..<num_chunks_made r] @ [Aggregate_Call]
         \<and> map prompt_sent (butlast (requests_made r)) = map chunk_prompt (chunks_made r))
     \<and> (num_chunks_made r = 1 \<longrightarrow>
           (\<exists>captions. video_captions = Some captions
              \<and> map site (requests_made r) = [Direct_Call]
              \<and> map prompt_sent (requests_made r) = [chunk_prompt captions]))"
  using assms
proof (cases rule: main_cases [where video_captions = video_captions])
  case absent
  from main_absent [OF this, of client s llm L url vd] show ?thesis by simp
next
  case (direct captions n cs)
  let ?r = "\<lparr> chunks_made = cs, num_chunks_made = n, summaries_made = [],
           requests_made =
             [\<lparr> site = Direct_Call, prompt_sent = chunk_prompt captions, model_sent = llm,
                outcome = fst (client s (chunk_prompt captions) llm) \<rparr>],
           result = Summary (direct_text (fst (client s (chunk_prompt captions) llm))),
           service = snd (client s (chunk_prompt captions) llm) \<rparr>"
  from main_direct [OF direct(2,3,5), of client s llm url vd] direct(1)
  have r: "main client s llm L url vd video_captions = Inr ?r" by simp
  from main_answers [OF r]
  have a: "answers client s (requests_made ?r) = (map outcome (requests_made ?r), service ?r)" .
  show ?thesis
    apply (rule exI [of _ ?r])
    apply (intro conjI)
    subgoal by (rule r)
    subgoal using direct(4) by simp
    subgoal by (rule a)
    subgoal by simp
    subgoal using direct(5) by simp
    subgoal using direct(1) by simp
    done
next
  case (multi captions n cs)
  from main_multi [OF multi(2,3,5,4), of client s llm url vd]
  obtain new agg s' where
    run: "main client s llm L url vd (Some captions) =
       Inr \<lparr> chunks_made = cs, num_chunks_made = n,
             summaries_made = map (\<lambda>r. chunk_text (outcome r)) new,
             requests_made = new @ [agg],
             result = Summary (final_text (outcome agg)), service = s' \<rparr>"
    and sites: "map site new = map Chunk_Call [0..<n]"
    and prompts: "map prompt_sent new = map chunk_prompt cs"
    and models: "map model_sent new = map (\<lambda>k. llm) [0..<n]"
    and agg: "site agg = Aggregate_Call" "model_sent agg = llm"
    by blast
  let ?r = "\<lparr> chunks_made = cs, num_chunks_made = n,
             summaries_made = map (\<lambda>r. chunk_text (outcome r)) new,
             requests_made = new @ [agg],
             result = Summary (final_text (outcome agg)), service = s' \<rparr>"
  from run multi(1) have r: "main client s llm L url vd video_captions = Inr ?r" by simp
  from main_answers [OF r]
  have a: "answers client s (requests_made ?r) = (map outcome (requests_made ?r), service ?r)" .
  from sites have "length (map site new) = length (map Chunk_Call [0..<n])" by (rule arg_cong)
  then have len: "length new = n" by simp
  have "map model_sent new = map (\<lambda>q. llm) new"
  proof (rule nth_equalityI)
    show "length (map model_sent new) = length (map (\<lambda>q. llm) new)" by simp
    fix i assume "i < length (map model_sent new)"
    then have i: "i < n" using len by simp
    from models have "map model_sent new ! i = map (\<lambda>k. llm) [0..<n] ! i" by (rule arg_cong)
    with i len show "map model_sent new ! i = map (\<lambda>q. llm) new ! i" by simp
  qed
  with agg(2) have m: "map model_sent (new @ [agg]) = map (\<lambda>q. llm) (new @ [agg])" by simp
  show ?thesis
    apply (rule exI [of _ ?r])
    apply (intro conjI)
    subgoal by (rule r)
    subgoal using multi(4) by simp
    subgoal by (rule a)
    subgoal using m by simp
    subgoal using sites agg(1) prompts by simp
    subgoal using multi(5) by simp
    done
qed

theorem completion_calls_by_chunk_count_witness:
  "0 < (2::nat)
   \<and> (\<exists>r. main (fails_on 1) 0 llama 2 video_url hamlet_data (Some ''to be or not to be'') = Inr r
          \<and> num_chunks_made r = 3 \<and> length (chunks_made r) = 3
          \<and> map site (requests_made r) = [Chunk_Call 0, Chunk_Call 1, Chunk_Call 2, Aggregate_Call]
          \<and> map prompt_sent (butlast (requests_made r))
                = [''Summarize the following video captions:\<newline>to be'',
                   ''Summarize the following video captions:\<newline>or not'',
                   ''Summarize the following video captions:\<newline>to be'']
          \<and> map model_sent (requests_made r) = [llama, llama, llama, llama]
          \<and> answers (fails_on 1) 0 (requests_made r) = (map outcome (requests_made r), service r)
          \<and> map outcome (requests_made r)
                = [Inr ''  Summary 0.\<newline>'', Inl ''rate limit exceeded'',
                   Inr ''  Summary 2.\<newline>'', Inr ''  Summary 3.\<newline>'']
          \<and> service r = 4)
   \<and> 0 < (1000::nat)
   \<and> (\<exists>r. main steady 0 llama 1000 video_url hamlet_data (Some ''to be'') = Inr r
          \<and> num_chunks_made r = 1
          \<and> map site (requests_made r) = [Direct_Call]
          \<and> map prompt_sent (requests_made r)
                = [''Summarize the following video captions:\<newline>to be'']
          \<and> answers steady 0 (requests_made r) = (map outcome (requests_made r), service r)
          \<and> map outcome (requests_made r) = [Inr '' llama3-8b-8192 read 45 characters.\<newline>'']
          \<and> service r = 1)"
proof -
  have two: "0 < (2::nat)" and thousand: "0 < (1000::nat)" by simp_all
  from completion_calls_by_chunk_count [OF two, of "fails_on 1" 0 llama video_url hamlet_data
      "Some ''to be or not to be''"]
  obtain r where r: "main (fails_on 1) 0 llama 2 video_url hamlet_data (Some ''to be or not to be'') = Inr r"
    and len: "num_chunks_made r = length (chunks_made r)"
    and calls: "answers (fails_on 1) 0 (requests_made r) = (map outcome (requests_made r), service r)"
    and models: "map model_sent (requests_made r) = map (\<lambda>q. llama) (requests_made r)"
    and multi: "1 < num_chunks_made r \<longrightarrow>
           map site (requests_made r) = map Chunk_Call [0..<num_chunks_made r] @ [Aggregate_Call]
         \<and> map prompt_sent (butlast (requests_made r)) = map chunk_prompt (chunks_made r)"
    by (elim exE conjE) (rule that, assumption+)
  from r second_chunk_fails have n: "num_chunks_made r = 3"
    and cs: "chunks_made r = [''to be'', ''or not'', ''to be'']"
    and l: "length (requests_made r) = 4"
    and os: "map outcome (requests_made r)
                = [Inr ''  Summary 0.\<newline>'', Inl ''rate limit exceeded'',
                   Inr ''  Summary 2.\<newline>'', Inr ''  Summary 3.\<newline>'']"
    and sv: "service r = 4" by auto
  from multi n have "map site (requests_made r) = map Chunk_Call [0..<3] @ [Aggregate_Call]"
    and "map prompt_sent (butlast (requests_made r)) = map chunk_prompt (chunks_made r)"
    by simp_all
  then have sites: "map site (requests_made r) = [Chunk_Call 0, Chunk_Call 1, Chunk_Call 2, Aggregate_Call]"
    and prompts: "map prompt_sent (butlast (requests_made r))
                = [''Summarize the following video captions:\<newline>to be'',
                   ''Summarize the following video captions:\<newline>or not'',
                   ''Summarize the following video captions:\<newline>to be'']"
    by (simp_all add: upt_rec cs)
  from sites have "length (map site (requests_made r)) = 4" by simp
  then obtain a b c d where "requests_made r = [a, b, c, d]"
    by (auto simp: length_Suc_conv eval_nat_numeral)
  with models have ms: "map model_sent (requests_made r) = [llama, llama, llama, llama]" by simp
  have A: "\<exists>r. main (fails_on 1) 0 llama 2 video_url hamlet_data (Some ''to be or not to be'') = Inr r
          \<and> num_chunks_made r = 3 \<and> length (chunks_made r) = 3
          \<and> map site (requests_made r) = [Chunk_Call 0, Chunk_Call 1, Chunk_Call 2, Aggregate_Call]
          \<and> map prompt_sent (butlast (requests_made r))
                = [''Summarize the following video captions:\<newline>to be'',
                   ''Summarize the following video captions:\<newline>or not'',
                   ''Summarize the following video captions:\<newline>to be'']
          \<and> map model_sent (requests_made r) = [llama, llama, llama, llama]
          \<and> answers (fails_on 1) 0 (requests_made r) = (map outcome (requests_made r), service r)
          \<and> map outcome (requests_made r)
                = [Inr ''  Summary 0.\<newline>'', Inl ''rate limit exceeded'',
                   Inr ''  Summary 2.\<newline>'', Inr ''  Summary 3.\<newline>'']
          \<and> service r = 4"
    using r n len sites prompts ms calls os sv by (intro exI [of _ r] conjI) simp_all
  from completion_calls_by_chunk_count [OF thousand, of steady 0 llama video_url hamlet_data
      "Some ''to be''"]
  obtain r' where r': "main steady 0 llama 1000 video_url hamlet_data (Some ''to be'') = Inr r'"
    and calls': "answers steady 0 (requests_made r') = (map outcome (requests_made r'), service r')"
    and single: "num_chunks_made r' = 1 \<longrightarrow>
           (\<exists>captions. Some ''to be'' = Some captions
              \<and> map site (requests_made r') = [Direct_Call]
              \<and> map prompt_sent (requests_made r') = [chunk_prompt captions])"
    by (elim exE conjE) (rule that, assumption+)
  from r' direct_answers have n': "num_chunks_made r' = 1"
    and os': "map outcome (requests_made r') = [Inr '' llama3-8b-8192 read 45 characters.\<newline>'']"
    and sv': "service r' = 1" by auto
  with single have "map site (requests_made r') = [Direct_Call]
      \<and> map prompt_sent (requests_made r') = [chunk_prompt ''to be'']" by simp
  then have B: "\<exists>r. main steady 0 llama 1000 video_url hamlet_data (Some ''to be'') = Inr r
          \<and> num_chunks_made r = 1
          \<and> map site (requests_made r) = [Direct_Call]
          \<and> map prompt_sent (requests_made r)
                = [''Summarize the following video captions:\<newline>to be'']
          \<and> answers steady 0 (requests_made r) = (map outcome (requests_made r), service r)
          \<and> map outcome (requests_made r) = [Inr '' llama3-8b-8192 read 45 characters.\<newline>'']
          \<and> service r = 1"
    using r' n' calls' os' sv' by (intro exI [of _ r'] conjI) simp_all
  from two A thousand B show ?thesis by (intro conjI)
qed

text \<open>
  C6. In a run with more than one chunk exactly one request is the aggregate request, the
  last of the run, sent with the selected model. Its prompt is the line
  \<open>Summarize the following captions:\<close>, then the video context (\<open>Video URL: \<close> and the URL,
  \<open>Video Data: \<close> and the video data), then \<open>Summaries:\<close>, then one block per chunk summary in
  index order: \<open>Chunk k:\<close> with \<open>k\<close> counted from 1, the \<open>k\<close>-th summary, and the delimiter
  \<open>---\<close>. The client is applied to that prompt once, in the state the chunk-level calls left:
  its response is the outcome the report is made from, and the state it leaves is the state
  of the service at the end of the run.
\<close>

theorem aggregate_prompt_labels_summaries_in_order:
  assumes "0 < L"
  shows "\<exists>r. main client s llm L url vd video_captions = Inr r
     \<and> answers client s (requests_made r) = (map outcome (requests_made r), service r)
     \<and> (1 < num_chunks_made r \<longrightarrow>
           length (summaries_made r) = num_chunks_made r
         \<and> filter (\<lambda>q. site q = Aggregate_Call) (requests_made r)
             = [requests_made r ! num_chunks_made r]
         \<and> length (requests_made r) = Suc (num_chunks_made r)
         \<and> model_sent (requests_made r ! num_chunks_made r) = llm
         \<and> prompt_sent (requests_made r ! num_chunks_made r)
             = ''Summarize the following captions:\<newline>''
               @ ''Video URL: '' @ url @ ''\<newline>\<newline>''
               @ ''Video Data: '' @ vd @ ''\<newline>\<newline>''
               @ ''Summaries:\<newline>\<newline>''
               @ concat (map (\<lambda>k. ''Chunk '' @ str_nat (Suc k) @ '':\<newline>\<newline>''
                                   @ summaries_made r ! k @ ''\<newline>\<newline>'' @ ''---\<newline>\<newline>'')
                           [0..<num_chunks_made r])
         \<and> (outcome (requests_made r ! num_chunks_made r), service r)
             = client (snd (answers client s (take (num_chunks_made r) (requests_made r))))
                 (prompt_sent (requests_made r ! num_chunks_made r)) llm
         \<and> result r = Summary (final_text (outcome (requests_made r ! num_chunks_made r))))"
  using assms
proof (cases rule: main_cases [where video_captions = video_captions])
  case absent
  from main_absent [OF this, of client s llm L url vd] show ?thesis by simp
next
  case (direct captions n cs)
  let ?r = "\<lparr> chunks_made = cs, num_chunks_made = n, summaries_made = [],
           requests_made =
             [\<lparr> site = Direct_Call, prompt_sent = chunk_prompt captions, model_sent = llm,
                outcome = fst (client s (chunk_prompt captions) llm) \<rparr>],
           result = Summary (direct_text (fst (client s (chunk_prompt captions) llm))),
           service = snd (client s (chunk_prompt captions) llm) \<rparr>"
  from main_direct [OF direct(2,3,5), of client s llm url vd] direct(1)
  have r: "main client s llm L url vd video_captions = Inr ?r" by simp
  from main_answers [OF r]
  have a: "answers client s (requests_made ?r) = (map outcome (requests_made ?r), service ?r)" .
  show ?thesis
    apply (rule exI [of _ ?r])
    apply (intro conjI)
    subgoal by (rule r)
    subgoal by (rule a)
    subgoal using direct(5) by simp
    done
next
  case (multi captions n cs)
  from main_multi_run [OF multi(2,3,5,4), of client s llm url vd]
  obtain r where r: "main client s llm L url vd (Some captions) = Inr r"
    and n: "num_chunks_made r = n"
    and lens: "length (summaries_made r) = n" "length (requests_made r) = Suc n"
    and each: "\<forall>k<n. site (requests_made r ! k) = Chunk_Call k
              \<and> prompt_sent (requests_made r ! k) = chunk_prompt (cs ! k)
              \<and> model_sent (requests_made r ! k) = llm
              \<and> summaries_made r ! k = chunk_text (outcome (requests_made r ! k))"
    and agg: "site (requests_made r ! n) = Aggregate_Call"
      "prompt_sent (requests_made r ! n) = aggregate_prompt url vd (summaries_made r)"
      "model_sent (requests_made r ! n) = llm"
      "result r = Summary (final_text (outcome (requests_made r ! n)))"
    by blast
  from r multi(1) have r': "main client s llm L url vd video_captions = Inr r" by simp
  note a = main_answers [OF r']
  from last_request_answers [OF a lens(2)] agg(3)
  have call: "(outcome (requests_made r ! n), service r)
             = client (snd (answers client s (take n (requests_made r))))
                 (prompt_sent (requests_made r ! n)) llm"
    by simp
  from each have "\<forall>k<n. site (requests_made r ! k) = Chunk_Call k" by simp
  from only_last_aggregates [OF lens(2) this agg(1)]
  have one: "filter (\<lambda>q. site q = Aggregate_Call) (requests_made r) = [requests_made r ! n]" .
  have inner: "length (summaries_made r) = num_chunks_made r
         \<and> filter (\<lambda>q. site q = Aggregate_Call) (requests_made r)
             = [requests_made r ! num_chunks_made r]
         \<and> length (requests_made r) = Suc (num_chunks_made r)
         \<and> model_sent (requests_made r ! num_chunks_made r) = llm
         \<and> prompt_sent (requests_made r ! num_chunks_made r)
             = ''Summarize the following captions:\<newline>''
               @ ''Video URL: '' @ url @ ''\<newline>\<newline>''
               @ ''Video Data: '' @ vd @ ''\<newline>\<newline>''
               @ ''Summaries:\<newline>\<newline>''
               @ concat (map (\<lambda>k. ''Chunk '' @ str_nat (Suc k) @ '':\<newline>\<newline>''
                                   @ summaries_made r ! k @ ''\<newline>\<newline>'' @ ''---\<newline>\<newline>'')
                           [0..<num_chunks_made r])
         \<and> (outcome (requests_made r ! num_chunks_made r), service r)
             = client (snd (answers client s (take (num_chunks_made r) (requests_made r))))
                 (prompt_sent (requests_made r ! num_chunks_made r)) llm
         \<and> result r = Summary (final_text (outcome (requests_made r ! num_chunks_made r)))"
    unfolding n
    apply (intro conjI)
    subgoal by (rule lens(1))
    subgoal by (rule one)
    subgoal by (rule lens(2))
    subgoal by (rule agg(3))
    subgoal using agg(2) lens(1) by simp
    subgoal by (rule call)
    subgoal by (rule agg(4))
    done
  show ?thesis
    apply (rule exI [of _ r])
    apply (intro conjI)
    subgoal by (rule r')
    subgoal by (rule a)
    subgoal by (rule impI) (rule inner)
    done
qed

theorem aggregate_prompt_labels_summaries_in_order_witness:
  "0 < (2::nat)
   \<and> (\<exists>r. main (fails_on 1) 0 llama 2 video_url hamlet_data (Some ''to be or not to be'') = Inr r
          \<and> summaries_made r
                = [''Summary 0.'', ''Error during API call: rate limit exceeded'', ''Summary 2.'']
          \<and> filter (\<lambda>q. site q = Aggregate_Call) (requests_made r) = [requests_made r ! 3]
          \<and> model_sent (requests_made r ! 3) = llama
          \<and> prompt_sent (requests_made r ! 3)
                = ''Summarize the following captions:\<newline>''
                  @ ''Video URL: https://youtu.be/zjkBMFhNj_g\<newline>\<newline>''
                  @ ''Video Data: {title: Hamlet}\<newline>\<newline>''
                  @ ''Summaries:\<newline>\<newline>''
                  @ ''Chunk 1:\<newline>\<newline>Summary 0.\<newline>\<newline>---\<newline>\<newline>''
                  @ ''Chunk 2:\<newline>\<newline>Error during API call: rate limit exceeded\<newline>\<newline>---\<newline>\<newline>''
                  @ ''Chunk 3:\<newline>\<newline>Summary 2.\<newline>\<newline>---\<newline>\<newline>''
          \<and> answers (fails_on 1) 0 (requests_made r) = (map outcome (requests_made r), service r)
          \<and> snd (answers (fails_on 1) 0 (take 3 (requests_made r))) = 3
          \<and> (outcome (requests_made r ! 3), service r)
                = fails_on 1 3 (prompt_sent (requests_made r ! 3)) llama
          \<and> outcome (requests_made r ! 3) = Inr ''  Summary 3.\<newline>''
          \<and> service r = 4
          \<and> result r = Summary ''Summary 3.'')"
proof -
  have two: "0 < (2::nat)" by simp
  from aggregate_prompt_labels_summaries_in_order [OF two, of "fails_on 1" 0 llama video_url
      hamlet_data "Some ''to be or not to be''"]
  obtain r where r: "main (fails_on 1) 0 llama 2 video_url hamlet_data (Some ''to be or not to be'') = Inr r"
    and calls: "answers (fails_on 1) 0 (requests_made r) = (map outcome (requests_made r), service r)"
    and multi: "1 < num_chunks_made r \<longrightarrow>
           length (summaries_made r) = num_chunks_made r
         \<and> filter (\<lambda>q. site q = Aggregate_Call) (requests_made r)
             = [requests_made r ! num_chunks_made r]
         \<and> length (requests_made r) = Suc (num_chunks_made r)
         \<and> model_sent (requests_made r ! num_chunks_made r) = llama
         \<and> prompt_sent (requests_made r ! num_chunks_made r)
             = ''Summarize the following captions:\<newline>''
               @ ''Video URL: '' @ video_url @ ''\<newline>\<newline>''
               @ ''Video Data: '' @ hamlet_data @ ''\<newline>\<newline>''
               @ ''Summaries:\<newline>\<newline>''
               @ concat (map (\<lambda>k. ''Chunk '' @ str_nat (Suc k) @ '':\<newline>\<newline>''
                                   @ summaries_made r ! k @ ''\<newline>\<newline>'' @ ''---\<newline>\<newline>'')
                           [0..<num_chunks_made r])
         \<and> (outcome (requests_made r ! num_chunks_made r), service r)
             = fails_on 1 (snd (answers (fails_on 1) 0 (take (num_chunks_made r) (requests_made r))))
                 (prompt_sent (requests_made r ! num_chunks_made r)) llama
         \<and> result r = Summary (final_text (outcome (requests_made r ! num_chunks_made r)))"
    by (elim exE conjE) (rule that, assumption+)
  from r second_chunk_fails have n: "num_chunks_made r = 3"
    and s: "summaries_made r
              = [''Summary 0.'', ''Error during API call: rate limit exceeded'', ''Summary 2.'']"
    and o: "outcome (requests_made r ! 3) = Inr ''  Summary 3.\<newline>''"
    and sv: "service r = 4"
    by auto
  from r second_chunk_fails
  have "take 3 (requests_made r) =
               [\<lparr> site = Chunk_Call 0,
                  prompt_sent = ''Summarize the following video captions:\<newline>to be'',
                  model_sent = llama, outcome = Inr ''  Summary 0.\<newline>'' \<rparr>,
                \<lparr> site = Chunk_Call 1,
                  prompt_sent = ''Summarize the following video captions:\<newline>or not'',
                  model_sent = llama, outcome = Inl ''rate limit exceeded'' \<rparr>,
                \<lparr> site = Chunk_Call 2,
                  prompt_sent = ''Summarize the following video captions:\<newline>to be'',
                  model_sent = llama, outcome = Inr ''  Summary 2.\<newline>'' \<rparr>]"
    by auto
  moreover have "snd (answers (fails_on 1) 0
               [\<lparr> site = Chunk_Call 0,
                  prompt_sent = ''Summarize the following video captions:\<newline>to be'',
                  model_sent = llama, outcome = Inr ''  Summary 0.\<newline>'' \<rparr>,
                \<lparr> site = Chunk_Call 1,
                  prompt_sent = ''Summarize the following video captions:\<newline>or not'',
                  model_sent = llama, outcome = Inl ''rate limit exceeded'' \<rparr>,
                \<lparr> site = Chunk_Call 2,
                  prompt_sent = ''Summarize the following video captions:\<newline>to be'',
                  model_sent = llama, outcome = Inr ''  Summary 2.\<newline>'' \<rparr>]) = 3"
    by code_simp
  ultimately have before: "snd (answers (fails_on 1) 0 (take 3 (requests_made r))) = 3"
    by (simp only:)
  have labels: "concat (map (\<lambda>k. ''Chunk '' @ str_nat (Suc k) @ '':\<newline>\<newline>''
                   @ [''Summary 0.'', ''Error during API call: rate limit exceeded'', ''Summary 2.''] ! k
                   @ ''\<newline>\<newline>'' @ ''---\<newline>\<newline>'') [0..<3])
      = ''Chunk 1:\<newline>\<newline>Summary 0.\<newline>\<newline>---\<newline>\<newline>''
        @ ''Chunk 2:\<newline>\<newline>Error during API call: rate limit exceeded\<newline>\<newline>---\<newline>\<newline>''
        @ ''Chunk 3:\<newline>\<newline>Summary 2.\<newline>\<newline>---\<newline>\<newline>''"
    by code_simp
  from multi n have one: "filter (\<lambda>q. site q = Aggregate_Call) (requests_made r) = [requests_made r ! 3]"
    and m: "model_sent (requests_made r ! 3) = llama"
    and p: "prompt_sent (requests_made r ! 3)
             = ''Summarize the following captions:\<newline>''
               @ ''Video URL: '' @ video_url @ ''\<newline>\<newline>''
               @ ''Video Data: '' @ hamlet_data @ ''\<newline>\<newline>''
               @ ''Summaries:\<newline>\<newline>''
               @ concat (map (\<lambda>k. ''Chunk '' @ str_nat (Suc k) @ '':\<newline>\<newline>''
                                   @ summaries_made r ! k @ ''\<newline>\<newline>'' @ ''---\<newline>\<newline>'')
                           [0..<3])"
    and call: "(outcome (requests_made r ! 3), service r)
             = fails_on 1 (snd (answers (fails_on 1) 0 (take 3 (requests_made r))))
                 (prompt_sent (requests_made r ! 3)) llama"
    and res: "result r = Summary (final_text (outcome (requests_made r ! 3)))"
    by simp_all
  from call have call': "(outcome (requests_made r ! 3), service r)
                = fails_on 1 3 (prompt_sent (requests_made r ! 3)) llama"
    by (simp only: before)
  have s3: "strip ''  Summary 3.\<newline>'' = ''Summary 3.''" by code_simp
  from res have res': "result r = Summary ''Summary 3.''"
    unfolding o by (simp add: s3)
  have p': "prompt_sent (requests_made r ! 3)
                = ''Summarize the following captions:\<newline>''
                  @ ''Video URL: https://youtu.be/zjkBMFhNj_g\<newline>\<newline>''
                  @ ''Video Data: {title: Hamlet}\<newline>\<newline>''
                  @ ''Summaries:\<newline>\<newline>''
                  @ ''Chunk 1:\<newline>\<newline>Summary 0.\<newline>\<newline>---\<newline>\<newline>''
                  @ ''Chunk 2:\<newline>\<newline>Error during API call: rate limit exceeded\<newline>\<newline>---\<newline>\<newline>''
                  @ ''Chunk 3:\<newline>\<newline>Summary 2.\<newline>\<newline>---\<newline>\<newline>''"
    unfolding p s labels by simp
  have "\<exists>r. main (fails_on 1) 0 llama 2 video_url hamlet_data (Some ''to be or not to be'') = Inr r
          \<and> summaries_made r
                = [''Summary 0.'', ''Error during API call: rate limit exceeded'', ''Summary 2.'']
          \<and> filter (\<lambda>q. site q = Aggregate_Call) (requests_made r) = [requests_made r ! 3]
          \<and> model_sent (requests_made r ! 3) = llama
          \<and> prompt_sent (requests_made r ! 3)
                = ''Summarize the following captions:\<newline>''
                  @ ''Video URL: https://youtu.be/zjkBMFhNj_g\<newline>\<newline>''
                  @ ''Video Data: {title: Hamlet}\<newline>\<newline>''
                  @ ''Summaries:\<newline>\<newline>''
                  @ ''Chunk 1:\<newline>\<newline>Summary 0.\<newline>\<newline>---\<newline>\<newline>''
                  @ ''Chunk 2:\<newline>\<newline>Error during API call: rate limit exceeded\<newline>\<newline>---\<newline>\<newline>''
                  @ ''Chunk 3:\<newline>\<newline>Summary 2.\<newline>\<newline>---\<newline>\<newline>''
          \<and> answers (fails_on 1) 0 (requests_made r) = (map outcome (requests_made r), service r)
          \<and> snd (answers (fails_on 1) 0 (take 3 (requests_made r))) = 3
          \<and> (outcome (requests_made r ! 3), service r)
                = fails_on 1 3 (prompt_sent (requests_made r ! 3)) llama
          \<and> outcome (requests_made r ! 3) = Inr ''  Summary 3.\<newline>''
          \<and> service r = 4
          \<and> result r = Summary ''Summary 3.''"
    using r s one m p' calls before call' o sv res' by (intro exI [of _ r] conjI)
  with two show ?thesis by (intro conjI)
qed

text \<open>
  C7. In a run with more than one chunk there are as many chunk summaries as chunks, one per
  chunk by index, each recorded from that chunk's own request; the aggregate request is the
  last of the run, made after the requests of all the chunks, and its prompt is built from
  the whole list of summaries.
\<close>

theorem one_summary_per_chunk_before_aggregating:
  assumes "0 < L"
  shows "\<exists>r. main client s llm L url vd video_captions = Inr r
     \<and> (1 < length (chunks_made r) \<longrightarrow>
           length (summaries_made r) = length (chunks_made r)
         \<and> length (requests_made r) = Suc (length (chunks_made r))
         \<and> (\<forall>k<length (chunks_made r).
               site (requests_made r ! k) = Chunk_Call k
             \<and> prompt_sent (requests_made r ! k) = chunk_prompt (chunks_made r ! k)
             \<and> summaries_made r ! k = chunk_text (outcome (requests_made r ! k)))
         \<and> site (requests_made r ! length (chunks_made r)) = Aggregate_Call
         \<and> prompt_sent (requests_made r ! length (chunks_made r))
             = aggregate_prompt url vd (summaries_made r))"
  using assms
proof (cases rule: main_cases [where video_captions = video_captions])
  case absent
  from main_absent [OF this, of client s llm L url vd] show ?thesis by simp
next
  case (direct captions n cs)
  from main_direct [OF direct(2,3,5), of client s llm url vd] direct(1,4,5) show ?thesis
    by simp
next
  case (multi captions n cs)
  from main_multi_run [OF multi(2,3,5,4), of client s llm url vd]
  obtain r where r: "main client s llm L url vd (Some captions) = Inr r"
    and cs: "chunks_made r = cs"
    and lens: "length (summaries_made r) = n" "length (requests_made r) = Suc n"
    and each: "\<forall>k<n. site (requests_made r ! k) = Chunk_Call k
              \<and> prompt_sent (requests_made r ! k) = chunk_prompt (cs ! k)
              \<and> model_sent (requests_made r ! k) = llm
              \<and> summaries_made r ! k = chunk_text (outcome (requests_made r ! k))"
    and agg: "site (requests_made r ! n) = Aggregate_Call"
      "prompt_sent (requests_made r ! n) = aggregate_prompt url vd (summaries_made r)"
    by blast
  have "\<forall>k<n. site (requests_made r ! k) = Chunk_Call k
             \<and> prompt_sent (requests_made r ! k) = chunk_prompt (cs ! k)
             \<and> summaries_made r ! k = chunk_text (outcome (requests_made r ! k))"
    using each by simp
  then show ?thesis
    using r cs lens agg multi(1,4) by (intro exI [of _ r]) simp
qed

theorem one_summary_per_chunk_before_aggregating_witness:
  "0 < (2::nat)
   \<and> (\<exists>r. main (fails_on 1) 0 llama 2 video_url hamlet_data (Some ''to be or not to be'') = Inr r
          \<and> length (chunks_made r) = 3 \<and> length (summaries_made r) = 3
          \<and> length (requests_made r) = 4
          \<and> site (requests_made r ! 0) = Chunk_Call 0
          \<and> site (requests_made r ! 1) = Chunk_Call 1
          \<and> site (requests_made r ! 2) = Chunk_Call 2
          \<and> site (requests_made r ! 3) = Aggregate_Call
          \<and> prompt_sent (requests_made r ! 3) = aggregate_prompt video_url hamlet_data (summaries_made r))"
proof -
  have two: "0 < (2::nat)" by simp
  from one_summary_per_chunk_before_aggregating [OF two, of "fails_on 1" 0 llama video_url hamlet_data
      "Some ''to be or not to be''"]
  obtain r where r: "main (fails_on 1) 0 llama 2 video_url hamlet_data (Some ''to be or not to be'') = Inr r"
    and multi: "1 < length (chunks_made r) \<longrightarrow>
           length (summaries_made r) = length (chunks_made r)
         \<and> length (requests_made r) = Suc (length (chunks_made r))
         \<and> (\<forall>k<length (chunks_made r).
               site (requests_made r ! k) = Chunk_Call k
             \<and> prompt_sent (requests_made r ! k) = chunk_prompt (chunks_made r ! k)
             \<and> summaries_made r ! k = chunk_text (outcome (requests_made r ! k)))
         \<and> site (requests_made r ! length (chunks_made r)) = Aggregate_Call
         \<and> prompt_sent (requests_made r ! length (chunks_made r))
             = aggregate_prompt video_url hamlet_data (summaries_made r)"
    by (elim exE conjE) (rule that, assumption+)
  from r second_chunk_fails have n: "length (chunks_made r) = 3" by auto
  from multi n have lens: "length (summaries_made r) = 3" "length (requests_made r) = 4"
    and each: "\<forall>k<3. site (requests_made r ! k) = Chunk_Call k
             \<and> prompt_sent (requests_made r ! k) = chunk_prompt (chunks_made r ! k)
             \<and> summaries_made r ! k = chunk_text (outcome (requests_made r ! k))"
    and agg: "site (requests_made r ! 3) = Aggregate_Call"
      "prompt_sent (requests_made r ! 3) = aggregate_prompt video_url hamlet_data (summaries_made r)"
    by simp_all
  have "(0::nat) < 3" "(1::nat) < 3" "(2::nat) < 3" by simp_all
  with each have sites: "site (requests_made r ! 0) = Chunk_Call 0"
    "site (requests_made r ! 1) = Chunk_Call 1" "site (requests_made r ! 2) = Chunk_Call 2"
    by blast+
  have "\<exists>r. main (fails_on 1) 0 llama 2 video_url hamlet_data (Some ''to be or not to be'') = Inr r
          \<and> length (chunks_made r) = 3 \<and> length (summaries_made r) = 3
          \<and> length (requests_made r) = 4
          \<and> site (requests_made r ! 0) = Chunk_Call 0
          \<and> site (requests_made r ! 1) = Chunk_Call 1
          \<and> site (requests_made r ! 2) = Chunk_Call 2
          \<and> site (requests_made r ! 3) = Aggregate_Call
          \<and> prompt_sent (requests_made r ! 3) = aggregate_prompt video_url hamlet_data (summaries_made r)"
    using r n lens sites agg by (intro exI [of _ r] conjI)
  with two show ?thesis by (intro conjI)
qed

text \<open>
  C8. With a deterministic client, two runs on the same captions, limit, model, video
  reference and video data yield the same chunks, the same chunk summaries, the same requests
  and the same report (or fail alike), whatever the state of the service at the start of
  each run.
\<close>

theorem rerun_is_identical:
  assumes "deterministic client"
  shows "observed (main client s llm L url vd video_captions)
           = observed (main client s' llm L url vd video_captions)"
proof (cases "0 < L")
  case False
  then have L: "L = 0" by simp
  show ?thesis
  proof (cases "video_captions = None \<or> video_captions = Some []")
    case True
    from main_absent [OF True, of client s llm L url vd]
      main_absent [OF True, of client s' llm L url vd]
    show ?thesis by simp
  next
    case False
    then obtain captions where "video_captions = Some captions" "captions \<noteq> []"
      by (cases video_captions) auto
    with L main_zero_limit [of captions client s llm url vd]
      main_zero_limit [of captions client s' llm url vd]
    show ?thesis by simp
  qed
next
  case True
  then show ?thesis
  proof (cases rule: main_cases [where video_captions = video_captions])
    case absent
    from main_absent [OF absent, of client s llm L url vd]
      main_absent [OF absent, of client s' llm L url vd]
    show ?thesis by simp
  next
    case (direct captions n cs)
    have "fst (client s (chunk_prompt captions) llm) = fst (client s' (chunk_prompt captions) llm)"
      using assms by (simp add: deterministic_def)
    with main_direct [OF direct(2,3,5), of client s llm url vd]
      main_direct [OF direct(2,3,5), of client s' llm url vd] direct(1)
    show ?thesis by simp
  next
    case (multi captions n cs)
    from main_multi [OF multi(2,3,5,4), of client s llm url vd]
    obtain new agg t where
      run: "main client s llm L url vd (Some captions) =
         Inr \<lparr> chunks_made = cs, num_chunks_made = n,
               summaries_made = map (\<lambda>r. chunk_text (outcome r)) new,
               requests_made = new @ [agg],
               result = Summary (final_text (outcome agg)), service = t \<rparr>"
      and new: "map site new = map Chunk_Call [0..<n]" "map prompt_sent new = map chunk_prompt cs"
        "map model_sent new = map (\<lambda>k. llm) [0..<n]"
        "list_all (\<lambda>r. \<exists>t. outcome r = fst (client t (prompt_sent r) (model_sent r))) new"
      and agg: "site agg = Aggregate_Call"
        "prompt_sent agg = aggregate_prompt url vd (map (\<lambda>r. chunk_text (outcome r)) new)"
        "model_sent agg = llm"
        "\<exists>t. outcome agg = fst (client t (prompt_sent agg) (model_sent agg))"
      by blast
    from main_multi [OF multi(2,3,5,4), of client s' llm url vd]
    obtain new' agg' t' where
      run': "main client s' llm L url vd (Some captions) =
         Inr \<lparr> chunks_made = cs, num_chunks_made = n,
               summaries_made = map (\<lambda>r. chunk_text (outcome r)) new',
               requests_made = new' @ [agg'],
               result = Summary (final_text (outcome agg')), service = t' \<rparr>"
      and new': "map site new' = map Chunk_Call [0..<n]" "map prompt_sent new' = map chunk_prompt cs"
        "map model_sent new' = map (\<lambda>k. llm) [0..<n]"
        "list_all (\<lambda>r. \<exists>t. outcome r = fst (client t (prompt_sent r) (model_sent r))) new'"
      and agg': "site agg' = Aggregate_Call"
        "prompt_sent agg' = aggregate_prompt url vd (map (\<lambda>r. chunk_text (outcome r)) new')"
        "model_sent agg' = llm"
        "\<exists>t. outcome agg' = fst (client t (prompt_sent agg') (model_sent agg'))"
      by blast
    have same: "new = new'"
      using requests_determined [OF assms new multi(4), of s]
        requests_determined [OF assms new' multi(4), of s] by simp
    from agg(4) obtain u where "outcome agg = fst (client u (prompt_sent agg) (model_sent agg))" ..
    moreover from agg'(4) obtain u'
      where "outcome agg' = fst (client u' (prompt_sent agg') (model_sent agg'))" ..
    moreover have "fst (client u (prompt_sent agg) (model_sent agg))
        = fst (client u' (prompt_sent agg) (model_sent agg))"
      using assms by (simp add: deterministic_def)
    ultimately have "outcome agg = outcome agg'"
      using agg(2,3) agg'(2,3) same by simp
    with agg(1-3) agg'(1-3) same have "agg = agg'"
      by (cases agg, cases agg') simp
    with run run' same multi(1) show ?thesis by simp
  qed
qed

theorem rerun_is_identical_witness:
  "deterministic steady
   \<and> observed (main steady 0 llama 2 video_url hamlet_data (Some ''to be or not to be''))
       = observed (main steady 7 llama 2 video_url hamlet_data (Some ''to be or not to be''))
   \<and> observed (main steady 7 llama 2 video_url hamlet_data (Some ''to be or not to be''))
     = Inr ([''to be'', ''or not'', ''to be''], 3,
            [''llama3-8b-8192 read 45 characters.'', ''llama3-8b-8192 read 46 characters.'',
             ''llama3-8b-8192 read 45 characters.''],
            [\<lparr> site = Chunk_Call 0,
               prompt_sent = ''Summarize the following video captions:\<newline>to be'',
               model_sent = llama,
               outcome = Inr '' llama3-8b-8192 read 45 characters.\<newline>'' \<rparr>,
             \<lparr> site = Chunk_Call 1,
               prompt_sent = ''Summarize the following video captions:\<newline>or not'',
               model_sent = llama,
               outcome = Inr '' llama3-8b-8192 read 46 characters.\<newline>'' \<rparr>,
             \<lparr> site = Chunk_Call 2,
               prompt_sent = ''Summarize the following video captions:\<newline>to be'',
               model_sent = llama,
               outcome = Inr '' llama3-8b-8192 read 45 characters.\<newline>'' \<rparr>,
             \<lparr> site = Aggregate_Call,
               prompt_sent = ''Summarize the following captions:\<newline>Video URL: https://youtu.be/zjkBMFhNj_g\<newline>\<newline>Video Data: {title: Hamlet}\<newline>\<newline>Summaries:\<newline>\<newline>Chunk 1:\<newline>\<newline>llama3-8b-8192 read 45 characters.\<newline>\<newline>---\<newline>\<newline>Chunk 2:\<newline>\<newline>llama3-8b-8192 read 46 characters.\<newline>\<newline>---\<newline>\<newline>Chunk 3:\<newline>\<newline>llama3-8b-8192 read 45 characters.\<newline>\<newline>---\<newline>\<newline>'',
               model_sent = llama,
               outcome = Inr '' llama3-8b-8192 read 269 characters.\<newline>'' \<rparr>],
            Summary ''llama3-8b-8192 read 269 characters.'')"
proof -
  note same = rerun_is_identical [OF steady_is_deterministic, of 0 llama 2 video_url hamlet_data
      "Some ''to be or not to be''" 7]
  from same [symmetric] steady_run
  have "observed (main steady 7 llama 2 video_url hamlet_data (Some ''to be or not to be''))
     = Inr ([''to be'', ''or not'', ''to be''], 3,
            [''llama3-8b-8192 read 45 characters.'', ''llama3-8b-8192 read 46 characters.'',
             ''llama3-8b-8192 read 45 characters.''],
            [\<lparr> site = Chunk_Call 0,
               prompt_sent = ''Summarize the following video captions:\<newline>to be'',
               model_sent = llama,
               outcome = Inr '' llama3-8b-8192 read 45 characters.\<newline>'' \<rparr>,
             \<lparr> site = Chunk_Call 1,
               prompt_sent = ''Summarize the following video captions:\<newline>or not'',
               model_sent = llama,
               outcome = Inr '' llama3-8b-8192 read 46 characters.\<newline>'' \<rparr>,
             \<lparr> site = Chunk_Call 2,
               prompt_sent = ''Summarize the following video captions:\<newline>to be'',
               model_sent = llama,
               outcome = Inr '' llama3-8b-8192 read 45 characters.\<newline>'' \<rparr>,
             \<lparr> site = Aggregate_Call,
               prompt_sent = ''Summarize the following captions:\<newline>Video URL: https://youtu.be/zjkBMFhNj_g\<newline>\<newline>Video Data: {title: Hamlet}\<newline>\<newline>Summaries:\<newline>\<newline>Chunk 1:\<newline>\<newline>llama3-8b-8192 read 45 characters.\<newline>\<newline>---\<newline>\<newline>Chunk 2:\<newline>\<newline>llama3-8b-8192 read 46 characters.\<newline>\<newline>---\<newline>\<newline>Chunk 3:\<newline>\<newline>llama3-8b-8192 read 45 characters.\<newline>\<newline>---\<newline>\<newline>'',
               model_sent = llama,
               outcome = Inr '' llama3-8b-8192 read 269 characters.\<newline>'' \<rparr>],
            Summary ''llama3-8b-8192 read 269 characters.'')"
    by (rule trans)
  with steady_is_deterministic same show ?thesis by (intro conjI)
qed

text \<open>
  C9. When a completion call succeeds, the text recorded for it is the content of the
  response with the whitespace at both ends removed: for a chunk-level call the chunk's
  summary, for the aggregate call and for the direct call the report. Here \<open>strip\<close> removes
  whitespace only, and what it leaves neither starts nor ends with whitespace.
\<close>

theorem successful_completion_is_trimmed:
  assumes "0 < L"
  shows "\<exists>r. main client s llm L url vd video_captions = Inr r
     \<and> (1 < num_chunks_made r \<longrightarrow>
           (\<forall>k<num_chunks_made r. \<forall>content. outcome (requests_made r ! k) = Inr content \<longrightarrow>
              summaries_made r ! k = strip content)
         \<and> (\<forall>content. outcome (requests_made r ! num_chunks_made r) = Inr content \<longrightarrow>
                result r = Summary (strip content)))
     \<and> (num_chunks_made r \<le> 1 \<longrightarrow>
           (\<forall>q content. requests_made r = [q] \<and> outcome q = Inr content \<longrightarrow>
              result r = Summary (strip content)))
     \<and> (\<forall>content. \<exists>a b. content = a @ strip content @ b \<and> list_all isspace a \<and> list_all isspace b)
     \<and> (\<forall>content. strip content = []
            \<or> \<not> isspace (hd (strip content)) \<and> \<not> isspace (last (strip content)))"
proof -
  have "\<exists>r. main client s llm L url vd video_captions = Inr r
     \<and> (1 < num_chunks_made r \<longrightarrow>
           (\<forall>k<num_chunks_made r. \<forall>content. outcome (requests_made r ! k) = Inr content \<longrightarrow>
              summaries_made r ! k = strip content)
         \<and> (\<forall>content. outcome (requests_made r ! num_chunks_made r) = Inr content \<longrightarrow>
                result r = Summary (strip content)))
     \<and> (num_chunks_made r \<le> 1 \<longrightarrow>
           (\<forall>q content. requests_made r = [q] \<and> outcome q = Inr content \<longrightarrow>
              result r = Summary (strip content)))"
    using assms
  proof (cases rule: main_cases [where video_captions = video_captions])
    case absent
    from main_absent [OF this, of client s llm L url vd] show ?thesis by simp
  next
    case (direct captions n cs)
    from main_direct [OF direct(2,3,5), of client s llm url vd] direct(1,4,5) show ?thesis
      by auto
  next
    case (multi captions n cs)
    from main_multi_run [OF multi(2,3,5,4), of client s llm url vd]
    obtain r where r: "main client s llm L url vd (Some captions) = Inr r"
      and n: "num_chunks_made r = n"
      and each: "\<forall>k<n. site (requests_made r ! k) = Chunk_Call k
                \<and> prompt_sent (requests_made r ! k) = chunk_prompt (cs ! k)
                \<and> model_sent (requests_made r ! k) = llm
                \<and> summaries_made r ! k = chunk_text (outcome (requests_made r ! k))"
      and agg: "result r = Summary (final_text (outcome (requests_made r ! n)))"
      by blast
    have "\<forall>k<n. \<forall>content. outcome (requests_made r ! k) = Inr content \<longrightarrow>
              summaries_made r ! k = strip content"
      using each by simp
    moreover have "\<forall>content. outcome (requests_made r ! n) = Inr content \<longrightarrow>
        result r = Summary (strip content)"
      using agg by simp
    ultimately show ?thesis
      using r n multi(1,5) by (intro exI [of _ r]) simp
  qed
  then obtain r where "main client s llm L url vd video_captions = Inr r"
    and "1 < num_chunks_made r \<longrightarrow>
           (\<forall>k<num_chunks_made r. \<forall>content. outcome (requests_made r ! k) = Inr content \<longrightarrow>
              summaries_made r ! k = strip content)
         \<and> (\<forall>content. outcome (requests_made r ! num_chunks_made r) = Inr content \<longrightarrow>
                result r = Summary (strip content))"
    and "num_chunks_made r \<le> 1 \<longrightarrow>
           (\<forall>q content. requests_made r = [q] \<and> outcome q = Inr content \<longrightarrow>
              result r = Summary (strip content))"
    by blast
  moreover have "\<forall>content. \<exists>a b. content = a @ strip content @ b \<and> list_all isspace a \<and> list_all isspace b"
    by (intro allI strip_trims(1))
  moreover have "\<forall>content. strip content = []
            \<or> \<not> isspace (hd (strip content)) \<and> \<not> isspace (last (strip content))"
    by (intro allI strip_trims(2))
  ultimately show ?thesis by (intro exI [of _ r] conjI)
qed

theorem successful_completion_is_trimmed_witness:
  "0 < (2::nat)
   \<and> (\<exists>r. main (fails_on 1) 0 llama 2 video_url hamlet_data (Some ''to be or not to be'') = Inr r
          \<and> outcome (requests_made r ! 0) = Inr ''  Summary 0.\<newline>''
          \<and> summaries_made r ! 0 = ''Summary 0.''
          \<and> outcome (requests_made r ! 3) = Inr ''  Summary 3.\<newline>''
          \<and> result r = Summary ''Summary 3.'')
   \<and> 0 < (1000::nat)
   \<and> (\<exists>r. main steady 0 llama 1000 video_url hamlet_data (Some ''to be'') = Inr r
          \<and> map outcome (requests_made r) = [Inr '' llama3-8b-8192 read 45 characters.\<newline>'']
          \<and> result r = Summary ''llama3-8b-8192 read 45 characters.'')"
proof -
  have two: "0 < (2::nat)" and thousand: "0 < (1000::nat)" by simp_all
  have s0: "strip ''  Summary 0.\<newline>'' = ''Summary 0.''"
    and s3: "strip ''  Summary 3.\<newline>'' = ''Summary 3.''"
    and s45: "strip '' llama3-8b-8192 read 45 characters.\<newline>'' = ''llama3-8b-8192 read 45 characters.''"
    by code_simp+
  from successful_completion_is_trimmed [OF two, of "fails_on 1" 0 llama video_url hamlet_data
      "Some ''to be or not to be''"]
  obtain r where r: "main (fails_on 1) 0 llama 2 video_url hamlet_data (Some ''to be or not to be'') = Inr r"
    and multi: "1 < num_chunks_made r \<longrightarrow>
           (\<forall>k<num_chunks_made r. \<forall>content. outcome (requests_made r ! k) = Inr content \<longrightarrow>
              summaries_made r ! k = strip content)
         \<and> (\<forall>content. outcome (requests_made r ! num_chunks_made r) = Inr content \<longrightarrow>
                result r = Summary (strip content))"
    by (elim exE conjE) (rule that, assumption+)
  from r second_chunk_fails have n: "num_chunks_made r = 3"
    and o0: "outcome (requests_made r ! 0) = Inr ''  Summary 0.\<newline>''"
    and o3: "outcome (requests_made r ! 3) = Inr ''  Summary 3.\<newline>''" by auto
  from multi n have each: "\<forall>k<3. \<forall>content. outcome (requests_made r ! k) = Inr content \<longrightarrow>
              summaries_made r ! k = strip content"
    and agg: "\<forall>content. outcome (requests_made r ! 3) = Inr content \<longrightarrow>
                result r = Summary (strip content)"
    by simp_all
  have "(0::nat) < 3" by simp
  with each o0 have "summaries_made r ! 0 = strip ''  Summary 0.\<newline>''" by blast
  then have t0: "summaries_made r ! 0 = ''Summary 0.''" by (simp only: s0)
  from agg o3 have "result r = Summary (strip ''  Summary 3.\<newline>'')" by blast
  then have t3: "result r = Summary ''Summary 3.''" by (simp only: s3)
  have A: "\<exists>r. main (fails_on 1) 0 llama 2 video_url hamlet_data (Some ''to be or not to be'') = Inr r
          \<and> outcome (requests_made r ! 0) = Inr ''  Summary 0.\<newline>''
          \<and> summaries_made r ! 0 = ''Summary 0.''
          \<and> outcome (requests_made r ! 3) = Inr ''  Summary 3.\<newline>''
          \<and> result r = Summary ''Summary 3.''"
    using r o0 t0 o3 t3 by (intro exI [of _ r] conjI)
  from successful_completion_is_trimmed [OF thousand, of steady 0 llama video_url hamlet_data
      "Some ''to be''"]
  obtain u where u: "main steady 0 llama 1000 video_url hamlet_data (Some ''to be'') = Inr u"
    and single: "num_chunks_made u \<le> 1 \<longrightarrow>
           (\<forall>q content. requests_made u = [q] \<and> outcome q = Inr content \<longrightarrow>
              result u = Summary (strip content))"
    by (elim exE conjE) (rule that, assumption+)
  from u direct_answers have n': "num_chunks_made u \<le> 1"
    and q: "requests_made u =
               [\<lparr> site = Direct_Call,
                  prompt_sent = ''Summarize the following video captions:\<newline>to be'',
                  model_sent = llama,
                  outcome = Inr '' llama3-8b-8192 read 45 characters.\<newline>'' \<rparr>]"
    by auto
  from single n' have "\<forall>q content. requests_made u = [q] \<and> outcome q = Inr content \<longrightarrow>
              result u = Summary (strip content)" by blast
  from this [rule_format, of "\<lparr> site = Direct_Call,
                  prompt_sent = ''Summarize the following video captions:\<newline>to be'',
                  model_sent = llama,
                  outcome = Inr '' llama3-8b-8192 read 45 characters.\<newline>'' \<rparr>"
                "'' llama3-8b-8192 read 45 characters.\<newline>''"] q
  have "result u = Summary (strip '' llama3-8b-8192 read 45 characters.\<newline>'')"
    by simp
  then have "result u = Summary ''llama3-8b-8192 read 45 characters.''" by (simp only: s45)
  moreover from q have "map outcome (requests_made u) = [Inr '' llama3-8b-8192 read 45 characters.\<newline>'']"
    by simp
  ultimately have B: "\<exists>r. main steady 0 llama 1000 video_url hamlet_data (Some ''to be'') = Inr r
          \<and> map outcome (requests_made r) = [Inr '' llama3-8b-8192 read 45 characters.\<newline>'']
          \<and> result r = Summary ''llama3-8b-8192 read 45 characters.''"
    using u by (intro exI [of _ u] conjI)
  from two A thousand B show ?thesis by (intro conjI)
qed



end
